theory Spec2Isabelle
  imports Complex_Main
begin

section \<open>Python errors\<close>

text \<open>
  The exceptions the modelled functions of \<^verbatim>\<open>csp2procreate.py\<close> can raise.
  \<open>RuntimeError\<close> carries the message of the \<^verbatim>\<open>raise\<close> statement.
\<close>

datatype pyerr = RuntimeError string | TypeError | IndexError

section \<open>Stage 1: PNG extraction\<close>

text \<open>Python \<^verbatim>\<open>bytes\<close> are lists of \<open>char\<close> (each a byte).\<close>

type_synonym bytes = string

definition IEND_MARKER :: bytes where
  "IEND_MARKER = ''IEND''"

text \<open>
  \<open>occurs_at pat xs i\<close>: the pattern \<open>pat\<close> lies in \<open>xs\<close> at offset \<open>i\<close>.
\<close>

definition occurs_at :: "'a list \<Rightarrow> 'a list \<Rightarrow> nat \<Rightarrow> bool" where
  "occurs_at pat xs i = (take (length pat) (drop i xs) = pat)"

text \<open>
  \<^verbatim>\<open>bytes.rfind(sub)\<close>: the highest offset at which \<open>sub\<close> occurs, or \<open>-1\<close>.
  The search runs downwards from offset \<open>n\<close>.
\<close>

fun rfind_from :: "'a list \<Rightarrow> 'a list \<Rightarrow> nat \<Rightarrow> int" where
  "rfind_from xs pat 0 = (if occurs_at pat xs 0 then 0 else -1)"
| "rfind_from xs pat (Suc n) =
     (if occurs_at pat xs (Suc n) then int (Suc n) else rfind_from xs pat n)"

definition rfind :: "'a list \<Rightarrow> 'a list \<Rightarrow> int" where
  "rfind xs pat = rfind_from xs pat (length xs)"

text \<open>
  The Python slice \<^verbatim>\<open>xs[b:e]\<close>: negative bounds count from the end, bounds are
  clipped to the length, and an end that is not after the begin gives the empty list.
\<close>

definition slice :: "'a list \<Rightarrow> int \<Rightarrow> int \<Rightarrow> 'a list" where
  "slice xs b e =
     (let n = int (length xs);
          b' = (if b < 0 then max 0 (b + n) else min b n);
          e' = (if e < 0 then max 0 (e + n) else min e n)
      in take (nat (e' - b')) (drop (nat b') xs))"

text \<open>
  \<^verbatim>\<open>
  def _extract_png_from_layer(blob: bytes) -> bytes:
      pos_png = blob.rfind(b"PNG")
      if pos_png <= 0:
          raise RuntimeError("PNG signature not found in layer blob")
      begin = pos_png - 1
      pos_iend = blob.rfind(IEND_MARKER)
      if pos_iend == -1:
          raise RuntimeError("IEND marker not found in layer blob")
      end = pos_iend + 4
      return blob[begin:end]
  \<close>
\<close>

definition extract_png_from_layer :: "bytes \<Rightarrow> pyerr + bytes" where
  "extract_png_from_layer blob =
     (let pos_png = rfind blob ''PNG'' in
      if pos_png \<le> 0 then Inl (RuntimeError ''PNG signature not found in layer blob'')
      else
        let begin = pos_png - 1;
            pos_iend = rfind blob IEND_MARKER in
        if pos_iend = -1 then Inl (RuntimeError ''IEND marker not found in layer blob'')
        else
          let end = pos_iend + 4 in
          Inr (slice blob begin end))"

text \<open>
  The row loop of \<^verbatim>\<open>extract_pngs_from_sut\<close>. A row is a pair of its
  \<^verbatim>\<open>_PW_ID\<close> and its blob. The outcome of the loop is the list of files written
  (the index \<open>idx\<close> of \<^verbatim>\<open>stamp_{idx:02d}.png\<close> with the bytes written, in order) and the
  list of warnings printed (the row id with the message of the exception caught).
  \<^verbatim>\<open>
      for idx, (_id, blob) in enumerate(rows):
          try:
              png_bytes = _extract_png_from_layer(blob)
              path = dest_dir / f"stamp_{idx:02d}.png"
              path.write_bytes(png_bytes)
              paths.append(path)
          except Exception as exc:
              print(f"[WARN] layer {_id} skipped: {exc}")
  \<close>
\<close>

record extraction =
  paths :: "(nat \<times> bytes) list"
  warnings :: "(int \<times> pyerr) list"

fun extract_rows :: "nat \<Rightarrow> (int \<times> bytes) list \<Rightarrow> extraction \<Rightarrow> extraction" where
  "extract_rows idx [] out = out"
| "extract_rows idx ((rid, blob) # rows) out =
     (case extract_png_from_layer blob of
        Inr png_bytes \<Rightarrow>
          extract_rows (Suc idx) rows (out\<lparr>paths := paths out @ [(idx, png_bytes)]\<rparr>)
      | Inl exc \<Rightarrow>
          extract_rows (Suc idx) rows (out\<lparr>warnings := warnings out @ [(rid, exc)]\<rparr>))"

definition extract_pngs_from_sut :: "(int \<times> bytes) list \<Rightarrow> pyerr + extraction" where
  "extract_pngs_from_sut rows =
     (if rows = [] then
        Inl (RuntimeError ''No FileData rows found - brush has no embedded images?'')
      else Inr (extract_rows 0 rows \<lparr>paths = [], warnings = []\<rparr>))"

text \<open>
  \<open>last_occ pat xs i\<close>: offset \<open>i\<close> is the last occurrence of \<open>pat\<close> in \<open>xs\<close>.
\<close>

definition last_occ :: "'a list \<Rightarrow> 'a list \<Rightarrow> nat \<Rightarrow> bool" where
  "last_occ pat xs i = (occurs_at pat xs i \<and> (\<forall>j. i < j \<longrightarrow> \<not> occurs_at pat xs j))"

section \<open>Stage 2: the variant row and the parameter mapping\<close>

text \<open>
  A Python \<^verbatim>\<open>float\<close>: a finite float, the two infinities, or not-a-number. A finite
  float is modelled by the real number it denotes: rounding, signed zeros and overflow of
  a finite operation are not modelled.
\<close>

datatype pyfloat = Fin real | PosInf | NegInf | NaN

text \<open>\<^verbatim>\<open>a < b\<close> and \<^verbatim>\<open>a <= b\<close> on floats: every comparison with not-a-number is false.\<close>

fun flt :: "pyfloat \<Rightarrow> pyfloat \<Rightarrow> bool" where
  "flt (Fin r) (Fin s) = (r < s)"
| "flt (Fin r) PosInf = True"
| "flt NegInf (Fin s) = True"
| "flt NegInf PosInf = True"
| "flt _ _ = False"

definition fle :: "pyfloat \<Rightarrow> pyfloat \<Rightarrow> bool" where
  "fle a b = (flt a b \<or> (a = b \<and> a \<noteq> NaN))"

text \<open>
  The builtins \<^verbatim>\<open>max(a, b)\<close> and \<^verbatim>\<open>min(a, b)\<close>: the first argument is kept unless the
  second is greater (is smaller). With not-a-number as second argument the first is kept.
\<close>

definition fmax :: "pyfloat \<Rightarrow> pyfloat \<Rightarrow> pyfloat" where
  "fmax a b = (if flt a b then b else a)"

definition fmin :: "pyfloat \<Rightarrow> pyfloat \<Rightarrow> pyfloat" where
  "fmin a b = (if flt b a then b else a)"

text \<open>
  \<^verbatim>\<open>a / b\<close> and \<^verbatim>\<open>a * b\<close> on floats. Python raises \<^verbatim>\<open>ZeroDivisionError\<close> for a zero
  divisor; no divisor of the modelled code is zero (they are the constants 100, 4 and 2,
  and \<^verbatim>\<open>size_px\<close>, which is never zero), and \<open>fdiv\<close> gives not-a-number there.
\<close>

fun fdiv :: "pyfloat \<Rightarrow> pyfloat \<Rightarrow> pyfloat" where
  "fdiv (Fin r) (Fin s) = (if s = 0 then NaN else Fin (r / s))"
| "fdiv (Fin r) PosInf = Fin 0"
| "fdiv (Fin r) NegInf = Fin 0"
| "fdiv PosInf (Fin s) = (if 0 < s then PosInf else if s < 0 then NegInf else NaN)"
| "fdiv NegInf (Fin s) = (if 0 < s then NegInf else if s < 0 then PosInf else NaN)"
| "fdiv _ _ = NaN"

fun fmul :: "pyfloat \<Rightarrow> pyfloat \<Rightarrow> pyfloat" where
  "fmul (Fin r) (Fin s) = Fin (r * s)"
| "fmul PosInf (Fin s) = (if 0 < s then PosInf else if s < 0 then NegInf else NaN)"
| "fmul NegInf (Fin s) = (if 0 < s then NegInf else if s < 0 then PosInf else NaN)"
| "fmul (Fin r) PosInf = (if 0 < r then PosInf else if r < 0 then NegInf else NaN)"
| "fmul (Fin r) NegInf = (if 0 < r then NegInf else if r < 0 then PosInf else NaN)"
| "fmul PosInf PosInf = PosInf"
| "fmul NegInf NegInf = PosInf"
| "fmul PosInf NegInf = NegInf"
| "fmul NegInf PosInf = NegInf"
| "fmul _ _ = NaN"

text \<open>
  The real number of a finite float. It is applied only to floats that are finite (the
  results of clamping to [0, 1]); on the other floats its value 0 is never used.
\<close>

fun fin :: "pyfloat \<Rightarrow> real" where
  "fin (Fin r) = r"
| "fin _ = 0"

text \<open>
  A value of the variant row, as \<^verbatim>\<open>sqlite3\<close> hands it to Python: \<^verbatim>\<open>None\<close> for NULL,
  an \<^verbatim>\<open>int\<close> or a \<^verbatim>\<open>float\<close> (a REAL column can hold the two infinities; SQLite
  stores not-a-number as NULL). The row is the dictionary built by
  \<^verbatim>\<open>read_variant_row\<close>: a key is absent when the table has no such column.
\<close>

datatype pyval = PNone | PInt int | PFloat pyfloat

type_synonym variant = "string \<rightharpoonup> pyval"

text \<open>\<^verbatim>\<open>variant.get(k)\<close> and \<^verbatim>\<open>variant.get(k, d)\<close>.\<close>

definition get :: "variant \<Rightarrow> string \<Rightarrow> pyval" where
  "get variant k = (case variant k of None \<Rightarrow> PNone | Some x \<Rightarrow> x)"

definition get_default :: "variant \<Rightarrow> string \<Rightarrow> pyval \<Rightarrow> pyval" where
  "get_default variant k d = (case variant k of None \<Rightarrow> d | Some x \<Rightarrow> x)"

text \<open>
  Truth value of a Python value: \<^verbatim>\<open>None\<close>, \<^verbatim>\<open>0\<close> and \<^verbatim>\<open>0.0\<close> are false; the
  infinities and not-a-number are true.
\<close>

fun truthy :: "pyval \<Rightarrow> bool" where
  "truthy PNone = False"
| "truthy (PInt n) = (n \<noteq> 0)"
| "truthy (PFloat x) = (x \<noteq> Fin 0)"

text \<open>
  The number denoted by \<^verbatim>\<open>x or d\<close> for a numeric default \<open>d\<close>: a false \<open>x\<close>
  (\<^verbatim>\<open>None\<close>, \<^verbatim>\<open>0\<close>, \<^verbatim>\<open>0.0\<close>) gives \<open>d\<close>, any other \<open>x\<close> is a number and gives itself.
  The result is never \<^verbatim>\<open>None\<close>, so \<^verbatim>\<open>float(x or d)\<close> and arithmetic on it do not raise.
\<close>

fun or_default :: "pyval \<Rightarrow> pyfloat \<Rightarrow> pyfloat" where
  "or_default PNone d = d"
| "or_default (PInt n) d = (if n = 0 then d else Fin (of_int n))"
| "or_default (PFloat x) d = (if x = Fin 0 then d else x)"

text \<open>
  A number where Python needs one (\<^verbatim>\<open>x / 100\<close>, \<^verbatim>\<open>float(x)\<close>, \<^verbatim>\<open>min(1000, x)\<close>):
  \<^verbatim>\<open>None\<close> raises \<^verbatim>\<open>TypeError\<close>.
\<close>

fun number :: "pyval \<Rightarrow> pyerr + pyfloat" where
  "number PNone = Inl TypeError"
| "number (PInt n) = Inr (Fin (of_int n))"
| "number (PFloat x) = Inr x"

text \<open>\<^verbatim>\<open>x == 3\<close> on a value of the row.\<close>

fun eq3 :: "pyval \<Rightarrow> bool" where
  "eq3 PNone = False"
| "eq3 (PInt n) = (n = 3)"
| "eq3 (PFloat x) = (x = Fin 3)"

text \<open>\<^verbatim>\<open>x == 0\<close> on a value of the row.\<close>

fun eq0 :: "pyval \<Rightarrow> bool" where
  "eq0 PNone = False"
| "eq0 (PInt n) = (n = 0)"
| "eq0 (PFloat x) = (x = Fin 0)"

subsection \<open>Spacing curve\<close>

text \<open>
  \<^verbatim>\<open>
  def csp_to_plotSpacing(variant):
      size_px     = variant.get("BrushSize", 1) or 1
      interval_px = variant.get("BrushInterval", 0) or 0
      if size_px <= 0:
          return 0.01
      raw_spacing = interval_px / size_px
      if size_px < 50:
          fudge_factor = 0.15
      elif size_px < 100:
          fudge_factor = 0.3
      else:
          fudge_factor = 0.6
      adjusted_spacing = raw_spacing * fudge_factor
      return max(0.01, min(1.0, adjusted_spacing))
  \<close>
\<close>

definition ps_size_px :: "variant \<Rightarrow> pyfloat" where
  "ps_size_px variant = or_default (get_default variant ''BrushSize'' (PInt 1)) (Fin 1)"

definition ps_interval_px :: "variant \<Rightarrow> pyfloat" where
  "ps_interval_px variant = or_default (get_default variant ''BrushInterval'' (PInt 0)) (Fin 0)"

definition csp_to_plotSpacing :: "variant \<Rightarrow> pyfloat" where
  "csp_to_plotSpacing variant =
     (let size_px = ps_size_px variant;
          interval_px = ps_interval_px variant in
      if fle size_px (Fin 0) then Fin 0.01
      else
        let raw_spacing = fdiv interval_px size_px;
            fudge_factor = (if flt size_px (Fin 50) then Fin 0.15
                            else if flt size_px (Fin 100) then Fin 0.3 else Fin 0.6);
            adjusted_spacing = fmul raw_spacing fudge_factor in
        fmax (Fin 0.01) (fmin (Fin 1.0) adjusted_spacing))"

subsection \<open>Rendering-mode classification\<close>

text \<open>
  \<^verbatim>\<open>
  def map_csp_rendering_flags(variant):
      use_watercolor = bool(variant.get("BrushUseWaterColor", 0))
      mix_color      = float(variant.get("BrushMixColor", 0.0) or 0)
      mix_alpha      = float(variant.get("BrushMixAlpha", 0.0) or 0)
      brush_flow     = float(variant.get("BrushFlow", 1.0) or 1.0)
      flags = {"renderingMaxTransfer": True, "renderingModulatedTransfer": False,
               "renderingRecursiveMixing": False}
      if use_watercolor or mix_color > 0.05 or mix_alpha > 0.05:
          flags["renderingRecursiveMixing"] = True
          if mix_color >= 0.75 or mix_alpha >= 0.75:
              flags["renderingMaxTransfer"] = True
              flags["renderingModulatedTransfer"] = True
          elif brush_flow > 0.8:
              flags["renderingMaxTransfer"] = True
              flags["renderingModulatedTransfer"] = False
          else:
              flags["renderingMaxTransfer"] = False
              flags["renderingModulatedTransfer"] = True
      return flags
  \<close>
\<close>

record render_flags =
  renderingMaxTransfer :: bool
  renderingModulatedTransfer :: bool
  renderingRecursiveMixing :: bool

definition rf_use_watercolor :: "variant \<Rightarrow> bool" where
  "rf_use_watercolor variant = truthy (get_default variant ''BrushUseWaterColor'' (PInt 0))"

definition rf_mix_color :: "variant \<Rightarrow> pyfloat" where
  "rf_mix_color variant =
     or_default (get_default variant ''BrushMixColor'' (PFloat (Fin 0.0))) (Fin 0)"

definition rf_mix_alpha :: "variant \<Rightarrow> pyfloat" where
  "rf_mix_alpha variant =
     or_default (get_default variant ''BrushMixAlpha'' (PFloat (Fin 0.0))) (Fin 0)"

definition rf_brush_flow :: "variant \<Rightarrow> pyfloat" where
  "rf_brush_flow variant =
     or_default (get_default variant ''BrushFlow'' (PFloat (Fin 1.0))) (Fin 1.0)"

definition map_csp_rendering_flags :: "variant \<Rightarrow> render_flags" where
  "map_csp_rendering_flags variant =
     (let use_watercolor = rf_use_watercolor variant;
          mix_color = rf_mix_color variant;
          mix_alpha = rf_mix_alpha variant;
          brush_flow = rf_brush_flow variant;
          flags = \<lparr>renderingMaxTransfer = True,
                   renderingModulatedTransfer = False,
                   renderingRecursiveMixing = False\<rparr> in
      if use_watercolor \<or> flt (Fin 0.05) mix_color \<or> flt (Fin 0.05) mix_alpha then
        let flags = flags\<lparr>renderingRecursiveMixing := True\<rparr> in
        if fle (Fin 0.75) mix_color \<or> fle (Fin 0.75) mix_alpha then
          flags\<lparr>renderingMaxTransfer := True, renderingModulatedTransfer := True\<rparr>
        else if flt (Fin 0.8) brush_flow then
          flags\<lparr>renderingMaxTransfer := True, renderingModulatedTransfer := False\<rparr>
        else
          flags\<lparr>renderingMaxTransfer := False, renderingModulatedTransfer := True\<rparr>
      else flags)"

subsection \<open>Wet-mix curve\<close>

text \<open>
  \<^verbatim>\<open>
  def map_csp_to_wet_mix(variant):
      use_wc   = bool(variant.get("BrushUseWaterColor", 0))
      mix_col  = float(variant.get("BrushMixColor", 0) or 0)
      mix_alpha= float(variant.get("BrushMixAlpha", 0) or 0)
      flow     = float(variant.get("BrushFlow", 100) or 100)
      nc = max(0.0, min(1.0, mix_col/100.0))
      na = max(0.0, min(1.0, mix_alpha/100.0))
      nf = max(0.0, min(1.0, flow/100.0))
      if not use_wc and nc < 0.5:
          dilution = 0.0
      else:
          gamma = 0.75
          cap   = 0.7
          base = nc ** gamma
          flow_brake = 0.5 + 0.5*(1.0 - nf)
          alpha_push = 0.2*na
          dilution = min(cap, base*cap*flow_brake + alpha_push*cap)
      charge = max(0.2, 1.0 - dilution)
      attack = 1.0 - 0.5*na
      pull = 0.6 if use_wc else 0.0
      return {"wetMixDilution": dilution, "wetMixCharge": charge,
              "wetMixAttack": attack, "wetMixPull": pull}
  \<close>
  The clamped values \<open>nc\<close>, \<open>na\<close> and \<open>nf\<close> are finite floats in [0, 1] whatever the
  row holds (lemma \<open>clamp_unit\<close>), so the rest of the function computes with finite
  floats, modelled by reals. The power \<^verbatim>\<open>nc ** gamma\<close> of a float \<open>nc \<ge> 0\<close> is the
  real power \<open>nc powr gamma\<close> (with \<open>0 powr gamma = 0\<close>, as \<^verbatim>\<open>0.0 ** 0.75 == 0.0\<close>).
\<close>

record wet_mix =
  wetMixDilution :: real
  wetMixCharge :: real
  wetMixAttack :: real
  wetMixPull :: real

definition wm_use_wc :: "variant \<Rightarrow> bool" where
  "wm_use_wc variant = truthy (get_default variant ''BrushUseWaterColor'' (PInt 0))"

definition wm_mix_col :: "variant \<Rightarrow> pyfloat" where
  "wm_mix_col variant = or_default (get_default variant ''BrushMixColor'' (PInt 0)) (Fin 0)"

definition wm_mix_alpha :: "variant \<Rightarrow> pyfloat" where
  "wm_mix_alpha variant = or_default (get_default variant ''BrushMixAlpha'' (PInt 0)) (Fin 0)"

definition wm_flow :: "variant \<Rightarrow> pyfloat" where
  "wm_flow variant = or_default (get_default variant ''BrushFlow'' (PInt 100)) (Fin 100)"

definition wm_nc :: "variant \<Rightarrow> real" where
  "wm_nc variant = fin (fmax (Fin 0.0) (fmin (Fin 1.0) (fdiv (wm_mix_col variant) (Fin 100.0))))"

definition wm_na :: "variant \<Rightarrow> real" where
  "wm_na variant = fin (fmax (Fin 0.0) (fmin (Fin 1.0) (fdiv (wm_mix_alpha variant) (Fin 100.0))))"

definition wm_nf :: "variant \<Rightarrow> real" where
  "wm_nf variant = fin (fmax (Fin 0.0) (fmin (Fin 1.0) (fdiv (wm_flow variant) (Fin 100.0))))"

definition map_csp_to_wet_mix :: "variant \<Rightarrow> wet_mix" where
  "map_csp_to_wet_mix variant =
     (let use_wc = wm_use_wc variant;
          nc = wm_nc variant;
          na = wm_na variant;
          nf = wm_nf variant;
          dilution =
            (if \<not> use_wc \<and> nc < 0.5 then 0.0
             else
               let gamma = 0.75;
                   cap = 0.7;
                   base = nc powr gamma;
                   flow_brake = 0.5 + 0.5 * (1.0 - nf);
                   alpha_push = 0.2 * na in
               min cap (base * cap * flow_brake + alpha_push * cap));
          charge = max 0.2 (1.0 - dilution);
          attack = 1.0 - 0.5 * na;
          pull = (if use_wc then 0.6 else 0.0) in
      \<lparr>wetMixDilution = dilution, wetMixCharge = charge,
       wetMixAttack = attack, wetMixPull = pull\<rparr>)"

section \<open>Stage 2: the property graph and its patcher\<close>

text \<open>
  The values of the object graph \<^verbatim>\<open>root["$objects"]\<close> as \<^verbatim>\<open>plistlib\<close> loads them, with
  \<^verbatim>\<open>None\<close> for the result of \<^verbatim>\<open>dict.get\<close> on a missing key. A dictionary is the list of
  its items in insertion order, with distinct keys; a key is a \<^verbatim>\<open>str\<close> or a \<^verbatim>\<open>bytes\<close>.
  \<open>UID k\<close> is the indirect reference \<^verbatim>\<open>plistlib.UID(k)\<close> to slot \<open>k\<close>.
\<close>

datatype pkey = KStr string | KBytes bytes

datatype pval =
    ONone
  | OBool bool
  | OInt int
  | OReal pyfloat
  | OStr string
  | OBytes bytes
  | UID nat
  | ODict "(pkey \<times> pval) list"
  | OList "pval list"

type_synonym pdict = "(pkey \<times> pval) list"

text \<open>\<^verbatim>\<open>k in d\<close>, \<^verbatim>\<open>d.get(k)\<close> and \<^verbatim>\<open>d[k] = v\<close>.\<close>

definition has :: "pdict \<Rightarrow> pkey \<Rightarrow> bool" where
  "has d k = (map_of d k \<noteq> None)"

definition dget :: "pdict \<Rightarrow> pkey \<Rightarrow> pval" where
  "dget d k = (case map_of d k of None \<Rightarrow> ONone | Some v \<Rightarrow> v)"

fun dset :: "pdict \<Rightarrow> pkey \<Rightarrow> pval \<Rightarrow> pdict" where
  "dset [] k v = [(k, v)]"
| "dset ((k', v') # d) k v = (if k' = k then (k, v) # d else (k', v') # dset d k v)"

text \<open>Truth value of a value of the graph (a \<^verbatim>\<open>UID\<close> object is always true).\<close>

fun otruthy :: "pval \<Rightarrow> bool" where
  "otruthy ONone = False"
| "otruthy (OBool b) = b"
| "otruthy (OInt n) = (n \<noteq> 0)"
| "otruthy (OReal x) = (x \<noteq> Fin 0)"
| "otruthy (OStr s) = (s \<noteq> [])"
| "otruthy (OBytes s) = (s \<noteq> [])"
| "otruthy (UID k) = True"
| "otruthy (ODict d) = (d \<noteq> [])"
| "otruthy (OList xs) = (xs \<noteq> [])"

text \<open>
  \<^verbatim>\<open>
  def resolve(val):
      while isinstance(val, UID):
          val = objs[val.data]
      return val
  \<close>
  The loop has no bound, so the function is partial: \<open>None\<close> is "does not return".
  \<^verbatim>\<open>objs[val.data]\<close> raises \<^verbatim>\<open>IndexError\<close> outside the slot table. Python returns the
  object itself, not a copy; the extra argument \<open>loc\<close> records where the object lives, for
  the assignment \<^verbatim>\<open>cd[key] = now\<close> that follows: \<open>Some k\<close> for slot \<open>k\<close>, \<open>None\<close> when no
  reference was followed.
\<close>

partial_function (option)
  resolve :: "pval list \<Rightarrow> nat option \<Rightarrow> pval \<Rightarrow> (pyerr + nat option \<times> pval) option"
where
  "resolve objs loc val =
     (case val of
        UID k \<Rightarrow>
          if k < length objs then resolve objs (Some k) (objs ! k)
          else Some (Inl IndexError)
      | _ \<Rightarrow> Some (Inr (loc, val)))"

declare resolve.simps [code]

text \<open>
  The index of \<^verbatim>\<open>objs[x] = ...\<close> in a list of length \<open>n\<close>: a \<^verbatim>\<open>UID\<close> (through
  \<^verbatim>\<open>__index__\<close>), an \<^verbatim>\<open>int\<close> (negative ones count from the end) or a \<^verbatim>\<open>bool\<close>;
  anything else raises \<^verbatim>\<open>TypeError\<close>, an index outside the list \<^verbatim>\<open>IndexError\<close>.
\<close>

definition int_index :: "nat \<Rightarrow> int \<Rightarrow> pyerr + nat" where
  "int_index n i =
     (if 0 \<le> i \<and> i < int n then Inr (nat i)
      else if - int n \<le> i \<and> i < 0 then Inr (nat (i + int n))
      else Inl IndexError)"

fun list_index :: "nat \<Rightarrow> pval \<Rightarrow> pyerr + nat" where
  "list_index n (UID k) = int_index n (int k)"
| "list_index n (OInt i) = int_index n i"
| "list_index n (OBool b) = int_index n (if b then 1 else 0)"
| "list_index n _ = Inl TypeError"

text \<open>
  The values computed by \<^verbatim>\<open>finalise_seed_brush\<close> before its loop (lines 253 to 281),
  with the two arguments the loop uses.
\<close>

record locals =
  now :: real
  new_name :: string
  spacing :: pyfloat
  min_px :: real
  max_px :: real
  opacity :: real
  randomized :: bool
  BrushRotation :: pyval
  BrushPatternOrderType :: pyval
  BrushRotationRandomScale :: pyfloat
  jitter_val :: pyfloat
  BrushUseIn :: pyval
  BrushUseOut :: pyval
  BrushInLength :: pyval
  BrushOutLength :: pyval
  render_flags :: render_flags
  wetMix_flags :: wet_mix
  angle_sensitive :: bool

text \<open>
  \<^verbatim>\<open>
      spacing = csp_to_plotSpacing(variant)
      min_px, max_px, opacity = 0.02, 3.0, 1.0
      flow_val = variant.get("BrushFlow",  1000)
      flow_val = max(0, min(1000, flow_val))
      randomized  = variant.get("BrushRotationRandomInSpray")
      BrushUseSpray  = variant.get("BrushUseSpray")
      BrushRotationInSpray  = variant.get("BrushRotationInSpray")
      if not (randomized == 0) and BrushUseSpray and BrushRotationInSpray:
          randomized = True
      else:
          randomized = False
      BrushRotation = variant.get("BrushRotation")
      BrushPatternOrderType = variant.get("BrushPatternOrderType", 0)
      BrushRotationRandomScale = variant.get("BrushRotationRandomScale", 0)/100
      interval_px = variant.get("BrushInterval")
      BrushSprayBias  = variant.get("BrushSprayBias")
      jitter_val  = (variant.get("BrushRevision")/100)*2
      BrushUseIn  = variant.get("BrushUseIn")
      BrushUseOut  = variant.get("BrushUseOut")
      BrushInLength  = variant.get("BrushInLength")
      BrushOutLength  = variant.get("BrushOutLength")
      BrushInRatio  = variant.get("BrushInRatio")
      BrushOutRatio  = variant.get("BrushOutRatio")
      render_flags = map_csp_rendering_flags(variant)
      wetMix_flags = map_csp_to_wet_mix(variant)
      angle_sensitive = variant.get("BrushRotationEffector") == 3
  \<close>
  \<^verbatim>\<open>min(1000, x)\<close> and \<^verbatim>\<open>x / 100\<close> raise \<^verbatim>\<open>TypeError\<close> on \<^verbatim>\<open>None\<close>. The values of
  \<^verbatim>\<open>flow_val\<close>, \<^verbatim>\<open>interval_px\<close>, \<^verbatim>\<open>BrushSprayBias\<close>, \<^verbatim>\<open>BrushInRatio\<close> and
  \<^verbatim>\<open>BrushOutRatio\<close> are not used afterwards.
\<close>

definition prepare :: "real \<Rightarrow> string \<Rightarrow> variant \<Rightarrow> pyerr + locals" where
  "prepare t name variant =
     (case number (get_default variant ''BrushFlow'' (PInt 1000)) of
        Inl e \<Rightarrow> Inl e
      | Inr flow_val \<Rightarrow>
     (case number (get_default variant ''BrushRotationRandomScale'' (PInt 0)) of
        Inl e \<Rightarrow> Inl e
      | Inr scale \<Rightarrow>
     (case number (get variant ''BrushRevision'') of
        Inl e \<Rightarrow> Inl e
      | Inr revision \<Rightarrow>
        Inr \<lparr>now = t,
             new_name = name,
             spacing = csp_to_plotSpacing variant,
             min_px = 0.02,
             max_px = 3.0,
             opacity = 1.0,
             randomized =
               (\<not> eq0 (get variant ''BrushRotationRandomInSpray'')
                \<and> truthy (get variant ''BrushUseSpray'')
                \<and> truthy (get variant ''BrushRotationInSpray'')),
             BrushRotation = get variant ''BrushRotation'',
             BrushPatternOrderType = get_default variant ''BrushPatternOrderType'' (PInt 0),
             BrushRotationRandomScale = fdiv scale (Fin 100),
             jitter_val = fmul (fdiv revision (Fin 100)) (Fin 2),
             BrushUseIn = get variant ''BrushUseIn'',
             BrushUseOut = get variant ''BrushUseOut'',
             BrushInLength = get variant ''BrushInLength'',
             BrushOutLength = get variant ''BrushOutLength'',
             render_flags = map_csp_rendering_flags variant,
             wetMix_flags = map_csp_to_wet_mix variant,
             angle_sensitive = eq3 (get variant ''BrushRotationEffector'')\<rparr>)))"

text \<open>\<^verbatim>\<open>if k in obj: obj[k] = v\<close> for a \<^verbatim>\<open>str\<close> key \<open>k\<close>.\<close>

definition set_if :: "string \<Rightarrow> pval \<Rightarrow> pdict \<Rightarrow> pdict" where
  "set_if k v obj = (if has obj (KStr k) then dset obj (KStr k) v else obj)"

text \<open>
  \<^verbatim>\<open>if k in obj: obj[k] = float(x)\<close>, where computing \<open>x\<close> may raise; it is computed
  only when the key is present.
\<close>

definition set_if_num :: "string \<Rightarrow> pyerr + pyfloat \<Rightarrow> pdict \<Rightarrow> pyerr + pdict" where
  "set_if_num k x obj =
     (if has obj (KStr k) then
        (case x of Inl e \<Rightarrow> Inl e | Inr r \<Rightarrow> Inr (dset obj (KStr k) (OReal r)))
      else Inr obj)"

text \<open>\<open>x / c\<close> for a value \<open>x\<close> of the row.\<close>

definition divided :: "pyval \<Rightarrow> real \<Rightarrow> pyerr + pyfloat" where
  "divided x c = (case number x of Inl e \<Rightarrow> Inl e | Inr r \<Rightarrow> Inr (fdiv r (Fin c)))"

text \<open>
  The per-occurrence fields (c) to (o) of the loop body, lines 300 to 377, on the record
  \<open>obj\<close>.
\<close>

definition patch_c_to_f :: "locals \<Rightarrow> pdict \<Rightarrow> pdict" where
  "patch_c_to_f L obj =
     (let obj = set_if ''plotSpacing'' (OReal (spacing L)) obj;
          obj = set_if ''minSize'' (OReal (Fin (min_px L))) obj;
          obj = set_if ''maxSize'' (OReal (Fin (max_px L))) obj;
          obj = set_if ''maxOpacity'' (OReal (Fin (opacity L))) obj
      in obj)"

definition patch_g :: "locals \<Rightarrow> pdict \<Rightarrow> pyerr + pdict" where
  "patch_g L obj = set_if_num ''shapeRotation'' (number (BrushRotation L)) obj"

definition patch_h_to_k :: "locals \<Rightarrow> pdict \<Rightarrow> pdict" where
  "patch_h_to_k L obj =
     (let obj = set_if ''shapeRandomise'' (OBool (randomized L)) obj;
          obj = (if has obj (KStr ''shapeRandomise'') then
                   (if eq3 (BrushPatternOrderType L) then
                      dset obj (KStr ''shapeScatter'') (OReal (BrushRotationRandomScale L))
                    else dset obj (KStr ''shapeScatter'') (OReal (Fin 0)))
                 else obj);
          obj = (if has obj (KStr ''shapeFlipXJitter'') \<and> eq3 (BrushPatternOrderType L) then
                   dset obj (KStr ''shapeFlipXJitter'') (OBool True)
                 else if has obj (KStr ''shapeFlipXJitter'') \<and> \<not> eq3 (BrushPatternOrderType L) then
                   dset obj (KStr ''shapeFlipXJitter'') (OBool False)
                 else obj);
          obj = set_if ''plotJitter'' (OReal (jitter_val L)) obj
      in obj)"

definition patch_l :: "locals \<Rightarrow> pdict \<Rightarrow> pyerr + pdict" where
  "patch_l L obj =
     (let obj = set_if ''taperPressure'' (OReal (Fin 0)) obj in
      if truthy (BrushUseIn L) \<or> truthy (BrushUseOut L) then
        (case set_if_num ''pencilTaperStartLength''
                (case divided (BrushInLength L) 100 of
                   Inl e \<Rightarrow> Inl e | Inr r \<Rightarrow> Inr (fdiv r (Fin 4))) obj of
           Inl e \<Rightarrow> Inl e
         | Inr obj \<Rightarrow>
             set_if_num ''pencilTaperEndLength''
                (case divided (BrushOutLength L) 100 of
                   Inl e \<Rightarrow> Inl e | Inr r \<Rightarrow> Inr (fdiv r (Fin 2))) obj)
      else Inr obj)"

definition patch_m_to_o :: "locals \<Rightarrow> pdict \<Rightarrow> pdict" where
  "patch_m_to_o L obj =
     (let obj = set_if ''renderingMaxTransfer''
                  (OBool (renderingMaxTransfer (render_flags L))) obj;
          obj = set_if ''renderingModulatedTransfer''
                  (OBool (renderingModulatedTransfer (render_flags L))) obj;
          obj = set_if ''renderingRecursiveMixing''
                  (OBool (renderingRecursiveMixing (render_flags L))) obj;
          obj = set_if ''dynamicsMix'' (OReal (Fin (wetMixDilution (wetMix_flags L)))) obj;
          obj = set_if ''dynamicsLoad'' (OReal (Fin (wetMixCharge (wetMix_flags L)))) obj;
          obj = set_if ''dynamicsPressureMix'' (OReal (Fin (wetMixAttack (wetMix_flags L)))) obj;
          obj = set_if ''dynamicsWetAccumulation''
                  (OReal (Fin (wetMixPull (wetMix_flags L)))) obj
      in
      if angle_sensitive L then
        (let obj = set_if ''shapeAzimuth'' (OBool True) obj;
             obj = set_if ''shapeRoll'' (OBool True) obj;
             obj = set_if ''shapeRollMode'' (OInt 1) obj;
             obj = set_if ''shapeOrientation'' (OInt 1) obj
         in obj)
      else obj)"

definition patch_fields :: "locals \<Rightarrow> pdict \<Rightarrow> pyerr + pdict" where
  "patch_fields L obj =
     (case patch_g L (patch_c_to_f L obj) of
        Inl e \<Rightarrow> Inl e
      | Inr obj \<Rightarrow>
          (case patch_l L (patch_h_to_k L obj) of
             Inl e \<Rightarrow> Inl e
           | Inr obj \<Rightarrow> Inr (patch_m_to_o L obj)))"

text \<open>
  The state of the loop: the slot table and the two flags. The slots are distinct objects
  (as \<^verbatim>\<open>plistlib.load\<close> builds them for distinct entries), so a slot changes only through
  an assignment to it or to the object it holds.
\<close>

record scan =
  s_objs :: "pval list"
  s_stamped :: bool
  s_renamed :: bool

text \<open>
  Step (a) at slot \<open>i\<close>, whose record is \<open>obj\<close>:
  \<^verbatim>\<open>
          if not stamped and ("creationDate" in obj or b"creationDate" in obj):
              cd = resolve(obj.get("creationDate") or obj.get(b"creationDate"))
              if isinstance(cd, dict) and ("NS.time" in cd or b"NS.time" in cd):
                  key = "NS.time" if "NS.time" in cd else b"NS.time"
                  cd[key] = now
                  stamped = True
  \<close>
  The assignment \<^verbatim>\<open>cd[key] = now\<close> changes the object \<open>cd\<close> where it lives: in
  another slot \<open>k\<close>, in the record \<open>obj\<close> itself (when the reference leads back to slot
  \<open>i\<close>), or inside \<open>obj\<close> under the key it was read from (when the value is a dictionary
  and no reference).
\<close>

definition stamp :: "locals \<Rightarrow> nat \<Rightarrow> pdict \<Rightarrow> scan \<Rightarrow> (pyerr + pdict \<times> scan) option" where
  "stamp L i obj st =
     (if \<not> s_stamped st \<and> (has obj (KStr ''creationDate'') \<or> has obj (KBytes ''creationDate''))
      then
        let from_key = (if otruthy (dget obj (KStr ''creationDate''))
                        then KStr ''creationDate'' else KBytes ''creationDate'') in
        (case resolve (s_objs st) None (dget obj from_key) of
           None \<Rightarrow> None
         | Some (Inl e) \<Rightarrow> Some (Inl e)
         | Some (Inr (loc, cd)) \<Rightarrow>
             (case cd of
                ODict cdd \<Rightarrow>
                  if has cdd (KStr ''NS.time'') \<or> has cdd (KBytes ''NS.time'') then
                    let key = (if has cdd (KStr ''NS.time'')
                               then KStr ''NS.time'' else KBytes ''NS.time'');
                        cdd' = dset cdd key (OReal (Fin (now L)))
                    in
                    (case loc of
                       None \<Rightarrow>
                         Some (Inr (dset obj from_key (ODict cdd'), st\<lparr>s_stamped := True\<rparr>))
                     | Some k \<Rightarrow>
                         if k = i then Some (Inr (cdd', st\<lparr>s_stamped := True\<rparr>))
                         else Some (Inr (obj, st\<lparr>s_objs := (s_objs st)[k := ODict cdd'],
                                                 s_stamped := True\<rparr>)))
                  else Some (Inr (obj, st))
              | _ \<Rightarrow> Some (Inr (obj, st))))
      else Some (Inr (obj, st)))"

text \<open>
  Step (b):
  \<^verbatim>\<open>
          if not renamed and ("name" in obj or b"name" in obj):
              objs[obj.get("name")] = new_name
              renamed  = True
  \<close>
  The result says whether slot \<open>i\<close> still holds the record \<open>obj\<close>: when the name
  reference leads to slot \<open>i\<close> itself, the slot now holds the name, and the later
  assignments to \<open>obj\<close> are no longer seen in the slot table.
\<close>

definition rename :: "locals \<Rightarrow> nat \<Rightarrow> pdict \<Rightarrow> scan \<Rightarrow> pyerr + bool \<times> scan" where
  "rename L i obj st =
     (if \<not> s_renamed st \<and> (has obj (KStr ''name'') \<or> has obj (KBytes ''name'')) then
        (case list_index (length (s_objs st)) (dget obj (KStr ''name'')) of
           Inl e \<Rightarrow> Inl e
         | Inr j \<Rightarrow>
             Inr (j \<noteq> i, st\<lparr>s_objs := (s_objs st)[j := OStr (new_name L)],
                               s_renamed := True\<rparr>))
      else Inr (True, st))"

text \<open>The body of the loop for the record \<open>obj\<close> of slot \<open>i\<close>, up to the final test.\<close>

definition patch_slot :: "locals \<Rightarrow> nat \<Rightarrow> pdict \<Rightarrow> scan \<Rightarrow> (pyerr + scan) option" where
  "patch_slot L i obj st =
     (case stamp L i obj st of
        None \<Rightarrow> None
      | Some (Inl e) \<Rightarrow> Some (Inl e)
      | Some (Inr (obj, st)) \<Rightarrow>
          (case rename L i obj st of
             Inl e \<Rightarrow> Some (Inl e)
           | Inr (attached, st) \<Rightarrow>
               (case patch_fields L obj of
                  Inl e \<Rightarrow> Some (Inl e)
                | Inr obj \<Rightarrow>
                    Some (Inr (if attached
                               then st\<lparr>s_objs := (s_objs st)[i := ODict obj]\<rparr>
                               else st)))))"

text \<open>
  The loop \<^verbatim>\<open>for obj in objs\<close> from slot \<open>i\<close> on, with \<open>n\<close> slots left (the length of
  the list never changes):
  \<^verbatim>\<open>
      for obj in objs:
          if not isinstance(obj, dict):
              continue
          ...
          if stamped and renamed:
              break
  \<close>
\<close>

fun scan_from :: "locals \<Rightarrow> nat \<Rightarrow> nat \<Rightarrow> scan \<Rightarrow> (pyerr + scan) option" where
  "scan_from L 0 i st = Some (Inr st)"
| "scan_from L (Suc n) i st =
     (case s_objs st ! i of
        ODict obj \<Rightarrow>
          (case patch_slot L i obj st of
             None \<Rightarrow> None
           | Some (Inl e) \<Rightarrow> Some (Inl e)
           | Some (Inr st) \<Rightarrow>
               if s_stamped st \<and> s_renamed st then Some (Inr st)
               else scan_from L n (Suc i) st)
      | _ \<Rightarrow> scan_from L n (Suc i) st)"

text \<open>
  \<^verbatim>\<open>finalise_seed_brush\<close> on the slot table \<open>objs\<close> of the template, the variant row
  read from the store, the display name and the time \<open>t\<close> of \<^verbatim>\<open>time.time()\<close>. The
  result is the slot table that is written back; writing the shape image and loading and
  dumping the archive are left out.
\<close>

definition finalise_seed_brush ::
  "pval list \<Rightarrow> string \<Rightarrow> real \<Rightarrow> variant \<Rightarrow> (pyerr + pval list) option" where
  "finalise_seed_brush objs name t variant =
     (case prepare t name variant of
        Inl e \<Rightarrow> Some (Inl e)
      | Inr L \<Rightarrow>
          (case scan_from L (length objs) 0
                  \<lparr>s_objs = objs, s_stamped = False, s_renamed = False\<rparr> of
             None \<Rightarrow> None
           | Some (Inl e) \<Rightarrow> Some (Inl e)
           | Some (Inr st) \<Rightarrow> Some (Inr (s_objs st))))"

section \<open>Notions used to state the properties\<close>

text \<open>
  The order of Python on the numbers of a variant row (\<^verbatim>\<open>x <= y\<close>); it is not
  defined when one side is \<^verbatim>\<open>None\<close>, and false when one side is not-a-number.
\<close>

fun py_le :: "pyval \<Rightarrow> pyval \<Rightarrow> bool" where
  "py_le (PInt a) (PInt b) = (a \<le> b)"
| "py_le (PInt a) (PFloat b) = fle (Fin (of_int a)) b"
| "py_le (PFloat a) (PInt b) = fle a (Fin (of_int b))"
| "py_le (PFloat a) (PFloat b) = fle a b"
| "py_le _ _ = False"

text \<open>A number below zero.\<close>

fun negative :: "pyval \<Rightarrow> bool" where
  "negative PNone = False"
| "negative (PInt n) = (n < 0)"
| "negative (PFloat x) = flt x (Fin 0)"

text \<open>
  The value of a field of the row as a number, with \<open>d\<close> for an absent or null field.
\<close>

fun field_value :: "pyval \<Rightarrow> pyfloat \<Rightarrow> pyfloat" where
  "field_value PNone d = d"
| "field_value (PInt n) d = Fin (of_int n)"
| "field_value (PFloat x) d = x"

text \<open>
  The rendering-mode decision table in the words of the specification, as a function of
  (useWaterColor, mixColor, mixAlpha, flow) on the 0-1 normalized scale: the gate is open
  when water-color is set or mix-color or mix-alpha exceeds 0.05; with the gate open,
  mix \<open>\<ge> 0.75\<close> is "intense", else flow \<open>> 0.8\<close> is "heavy", else "uniform"; with the
  gate closed the result is max transfer on, modulated off, recursive off.
\<close>

definition claimed_rendering_flags ::
  "bool \<Rightarrow> pyfloat \<Rightarrow> pyfloat \<Rightarrow> pyfloat \<Rightarrow> render_flags" where
  "claimed_rendering_flags useWaterColor mixColor mixAlpha flow =
     (if useWaterColor \<or> flt (Fin 0.05) mixColor \<or> flt (Fin 0.05) mixAlpha then
        (if fle (Fin 0.75) mixColor \<or> fle (Fin 0.75) mixAlpha then
           \<lparr>renderingMaxTransfer = True, renderingModulatedTransfer = True,
            renderingRecursiveMixing = True\<rparr>
         else if flt (Fin 0.8) flow then
           \<lparr>renderingMaxTransfer = True, renderingModulatedTransfer = False,
            renderingRecursiveMixing = True\<rparr>
         else
           \<lparr>renderingMaxTransfer = False, renderingModulatedTransfer = True,
            renderingRecursiveMixing = True\<rparr>)
      else
        \<lparr>renderingMaxTransfer = True, renderingModulatedTransfer = False,
         renderingRecursiveMixing = False\<rparr>)"

text \<open>
  The mix fields and the flow of a row on the 0-1 normalized scale: the 0-100 value of the
  row divided by 100, an absent or null mix field counting as 0 and an absent, null or zero
  flow as full strength, 1.0.
\<close>

definition normalized_mix :: "pyval \<Rightarrow> pyfloat" where
  "normalized_mix x = fdiv (field_value x (Fin 0)) (Fin 100)"

definition normalized_flow :: "pyval \<Rightarrow> pyfloat" where
  "normalized_flow x =
     (if x = PNone \<or> eq0 x then Fin 1.0 else fdiv (field_value x (Fin 0)) (Fin 100))"

text \<open>
  The values of a row for which the scale makes no difference to the decision table: the
  0-100 value and its normalisation lie on the same side of each threshold. For a mix field
  (thresholds 0.05 and 0.75) these are the values up to 0.05 and from 75 on; for the flow
  (threshold 0.8) the values up to 0.8 and above 80, and the absent, null or zero flow.
\<close>

definition scale_free_mix :: "pyval \<Rightarrow> bool" where
  "scale_free_mix x =
     (fle (field_value x (Fin 0)) (Fin 0.05) \<or> fle (Fin 75) (field_value x (Fin 0)))"

definition scale_free_flow :: "pyval \<Rightarrow> bool" where
  "scale_free_flow x =
     (x = PNone \<or> eq0 x \<or> fle (field_value x (Fin 0)) (Fin 0.8)
      \<or> flt (Fin 80) (field_value x (Fin 0)))"

text \<open>
  The wet-mix curve in the words of the specification: an input is normalised by dividing
  the raw 0-100 field by 100 and clamping to [0, 1] (so an infinite field gives 0 or 1;
  not-a-number, which SQLite never hands out, gives 1 as in Python); dilution, charge,
  attack and pull are given by the stated formulas on the normalised inputs.
\<close>

fun claimed_norm :: "pyfloat \<Rightarrow> real" where
  "claimed_norm (Fin raw) = max 0 (min 1 (raw / 100))"
| "claimed_norm PosInf = 1"
| "claimed_norm NegInf = 0"
| "claimed_norm NaN = 1"

definition claimed_wet_mix :: "bool \<Rightarrow> real \<Rightarrow> real \<Rightarrow> real \<Rightarrow> wet_mix" where
  "claimed_wet_mix waterColor normColor normAlpha normFlow =
     (let dilution =
            (if \<not> waterColor \<and> normColor < 0.5 then 0
             else min 0.7 (normColor powr 0.75 * 0.7 * (0.5 + 0.5 * (1 - normFlow))
                           + 0.2 * normAlpha * 0.7)) in
      \<lparr>wetMixDilution = dilution,
       wetMixCharge = max 0.2 (1 - dilution),
       wetMixAttack = 1 - 0.5 * normAlpha,
       wetMixPull = (if waterColor then 0.6 else 0.0)\<rparr>)"

text \<open>
  Resolution cut off after \<open>n\<close> indirections: \<open>None\<close> when more than \<open>n\<close> references
  would have to be followed.
\<close>

fun follow :: "nat \<Rightarrow> pval list \<Rightarrow> nat option \<Rightarrow> pval \<Rightarrow> (pyerr + nat option \<times> pval) option" where
  "follow n objs loc (UID k) =
     (if k < length objs then
        (case n of 0 \<Rightarrow> None | Suc m \<Rightarrow> follow m objs (Some k) (objs ! k))
      else Some (Inl IndexError))"
| "follow n objs loc val = Some (Inr (loc, val))"

text \<open>
  One indirection, and the values from which another one is followed: \<open>nxt objs\<close> maps
  a reference to the slot it names, \<open>active objs v\<close> says that \<open>v\<close> is a reference into
  the slot table.
\<close>

definition nxt :: "pval list \<Rightarrow> pval \<Rightarrow> pval" where
  "nxt objs v = (case v of UID k \<Rightarrow> objs ! k | _ \<Rightarrow> v)"

definition active :: "pval list \<Rightarrow> pval \<Rightarrow> bool" where
  "active objs v = (case v of UID k \<Rightarrow> k < length objs | _ \<Rightarrow> False)"

text \<open>
  The field names the loop tests besides \<^verbatim>\<open>plotSpacing\<close>.
\<close>

definition other_fields :: "string list" where
  "other_fields =
     [''minSize'', ''maxSize'', ''maxOpacity'', ''shapeRotation'', ''shapeRandomise'',
      ''shapeFlipXJitter'', ''plotJitter'', ''taperPressure'', ''pencilTaperStartLength'',
      ''pencilTaperEndLength'', ''renderingMaxTransfer'', ''renderingModulatedTransfer'',
      ''renderingRecursiveMixing'', ''dynamicsMix'', ''dynamicsLoad'', ''dynamicsPressureMix'',
      ''dynamicsWetAccumulation'', ''shapeAzimuth'', ''shapeRoll'', ''shapeRollMode'',
      ''shapeOrientation'']"

section \<open>Properties of the extraction\<close>

lemma occurs_at_bound:
  assumes "occurs_at pat xs i"
  shows "i + length pat \<le> length xs \<or> pat = []"
proof -
  from assms have "length (take (length pat) (drop i xs)) = length pat"
    by (simp add: occurs_at_def)
  then have "min (length xs - i) (length pat) = length pat"
    by simp
  moreover have "pat \<noteq> [] \<Longrightarrow> 0 < length pat"
    by simp
  ultimately show ?thesis by (cases "pat = []") (simp, arith)
qed

lemma rfind_from_none:
  "rfind_from xs pat n = -1 \<longleftrightarrow> (\<forall>j\<le>n. \<not> occurs_at pat xs j)"
proof (induction n)
  case 0
  then show ?case by simp
next
  case (Suc n)
  then show ?case by (auto simp: le_Suc_eq)
qed

lemma rfind_from_range: "- 1 \<le> rfind_from xs pat n \<and> rfind_from xs pat n \<le> int n"
  by (induction n) auto

lemma rfind_from_some:
  "rfind_from xs pat n = int p \<longleftrightarrow>
     (p \<le> n \<and> occurs_at pat xs p \<and> (\<forall>j. p < j \<and> j \<le> n \<longrightarrow> \<not> occurs_at pat xs j))"
proof (induction n)
  case 0
  then show ?case by auto
next
  case (Suc n)
  show ?case
  proof (cases "occurs_at pat xs (Suc n)")
    case True
    have "rfind_from xs pat (Suc n) = int p \<longleftrightarrow> p = Suc n"
      using True by (simp only: rfind_from.simps if_True of_nat_eq_iff) auto
    then show ?thesis
      using True by (auto simp: le_Suc_eq)
  next
    case False
    have "rfind_from xs pat (Suc n) = rfind_from xs pat n"
      using False by simp
    also have "(\<dots> = int p) \<longleftrightarrow>
        (p \<le> n \<and> occurs_at pat xs p \<and> (\<forall>j. p < j \<and> j \<le> n \<longrightarrow> \<not> occurs_at pat xs j))"
      by (rule Suc.IH)
    finally show ?thesis
      using False by (auto simp: le_Suc_eq)
  qed
qed

lemma rfind_last_occ:
  assumes "pat \<noteq> []"
  shows "rfind xs pat = int p \<longleftrightarrow> last_occ pat xs p"
proof -
  have beyond: "\<not> occurs_at pat xs j" if "length xs < j" for j
    using occurs_at_bound [of pat xs j] assms that by auto
  have inside: "p \<le> length xs" if "occurs_at pat xs p"
    using occurs_at_bound [of pat xs p] assms that by auto
  show ?thesis
    unfolding rfind_def last_occ_def rfind_from_some
    using beyond inside by (meson not_le_imp_less)
qed

lemma rfind_absent:
  "rfind xs pat = -1 \<longleftrightarrow> (\<forall>j\<le>length xs. \<not> occurs_at pat xs j)"
  by (simp add: rfind_def rfind_from_none)

lemma slice_nonneg:
  assumes "0 \<le> b" "0 \<le> e"
  shows "slice xs b e = drop (nat b) (take (nat e) xs)"
proof -
  obtain m n where b: "b = int m" and e: "e = int n"
    using assms by (metis nat_0_le)
  have sub: "nat (int i - int j) = i - j" for i j :: nat
    by arith
  have "slice xs (int m) (int n) =
          take (min n (length xs) - min m (length xs)) (drop (min m (length xs)) xs)"
    by (simp add: slice_def Let_def min_def sub)
  also have "\<dots> = drop m (take n xs)"
    by (cases "m \<le> length xs"; cases "n \<le> length xs") (simp_all add: drop_take min_def)
  finally show ?thesis by (simp add: b e)
qed

text \<open>
  Every row is either written or reported: the loop never stops early, whatever the
  extraction of a row does.
\<close>

lemma extract_rows_total:
  "length (paths (extract_rows idx rows out)) + length (warnings (extract_rows idx rows out))
     = length (paths out) + length (warnings out) + length rows"
proof (induction rows arbitrary: idx out)
  case Nil
  then show ?case by simp
next
  case (Cons row rows)
  obtain rid blob where row: "row = (rid, blob)" by (cases row)
  show ?case
    by (cases "extract_png_from_layer blob") (simp_all add: row Cons.IH)
qed

text \<open>
  A blob without the start marker, with the start marker at offset 0 only, or without the
  end marker, makes the extraction raise.
\<close>

lemma extract_missing_marker:
  assumes "rfind blob ''PNG'' \<le> 0 \<or> rfind blob IEND_MARKER = - 1"
  shows "\<exists>msg. extract_png_from_layer blob = Inl (RuntimeError msg)"
  using assms by (auto simp: extract_png_from_layer_def Let_def)

lemma occurs_at_window:
  assumes "pat \<noteq> []"
  shows "occurs_at pat (drop a (take b xs)) j \<longleftrightarrow>
           occurs_at pat xs (a + j) \<and> a + j + length pat \<le> b"
proof (cases "a + j + length pat \<le> b")
  case True
  have "take (length pat) (drop j (drop a (take b xs)))
          = take (length pat) (take (b - (a + j)) (drop (a + j) xs))"
    by (simp add: drop_take add.commute)
  also have "\<dots> = take (length pat) (drop (a + j) xs)"
    using True by (simp add: min_def)
  finally show ?thesis
    using True by (simp add: occurs_at_def add.commute)
next
  case False
  have "length (drop a (take b xs)) \<le> b - a"
    by simp
  moreover have "0 < length pat"
    using assms by simp
  ultimately have "\<not> j + length pat \<le> length (drop a (take b xs))"
    using False by linarith
  then have "\<not> occurs_at pat (drop a (take b xs)) j"
    using occurs_at_bound [of pat "drop a (take b xs)" j] assms by auto
  with False show ?thesis by simp
qed

lemma last_occ_window:
  assumes ne: "pat \<noteq> []" and last: "last_occ pat xs (a + j)"
    and fits: "a + j + length pat \<le> b"
  shows "last_occ pat (drop a (take b xs)) j"
  unfolding last_occ_def
proof (intro conjI allI impI)
  show "occurs_at pat (drop a (take b xs)) j"
    using last fits by (simp add: occurs_at_window [OF ne] last_occ_def)
next
  fix i assume "j < i"
  then have "a + j < a + i" by simp
  with last have "\<not> occurs_at pat xs (a + i)"
    by (simp add: last_occ_def)
  then show "\<not> occurs_at pat (drop a (take b xs)) i"
    by (simp add: occurs_at_window [OF ne])
qed

lemma extract_range:
  assumes png: "last_occ ''PNG'' blob p" and p1: "1 \<le> p"
    and iend: "last_occ IEND_MARKER blob q"
  shows "extract_png_from_layer blob = Inr (drop (p - 1) (take (q + 4) blob))"
proof -
  have a: "rfind blob ''PNG'' = int p"
    using png by (simp add: rfind_last_occ)
  have b: "rfind blob IEND_MARKER = int q"
    using iend by (simp add: rfind_last_occ IEND_MARKER_def)
  have d: "slice blob (int p - 1) (int q + 4) = drop (p - 1) (take (q + 4) blob)"
    using p1 by (simp add: slice_nonneg nat_diff_distrib nat_add_distrib)
  show ?thesis
    using a b d p1 by (simp add: extract_png_from_layer_def Let_def)
qed

text \<open>
  Claim C6. For a blob with a well-formed marker pair (the last occurrence of the start
  marker \<^verbatim>\<open>PNG\<close> at an offset \<open>p \<ge> 1\<close>, the last occurrence of the end marker
  \<^verbatim>\<open>IEND\<close> at an offset \<open>q\<close> after it), the extraction returns exactly the bytes from
  offset \<open>p - 1\<close> up to, and not including, offset \<open>q + 4\<close>, and that range lies inside the
  blob. The extraction is a function of the blob alone, so running it again on the same
  blob gives the same bytes; moreover it is idempotent: extracting from the bytes it
  returned gives those bytes again.
\<close>

theorem extract_well_formed:
  assumes png: "last_occ ''PNG'' blob p" and p1: "1 \<le> p"
    and iend: "last_occ IEND_MARKER blob q" and pq: "p < q"
  shows "extract_png_from_layer blob = Inr (drop (p - 1) (take (q + 4) blob))
         \<and> q + 4 \<le> length blob
         \<and> extract_png_from_layer (drop (p - 1) (take (q + 4) blob))
             = Inr (drop (p - 1) (take (q + 4) blob))"
proof -
  let ?r = "drop (p - 1) (take (q + 4) blob)"
  have first: "extract_png_from_layer blob = Inr ?r"
    using png p1 iend by (rule extract_range)
  have inside: "q + 4 \<le> length blob"
    using iend occurs_at_bound [of IEND_MARKER blob q]
    by (simp add: last_occ_def IEND_MARKER_def)
  have len: "length ?r = q + 5 - p"
    using inside p1 pq by simp
  have "last_occ ''PNG'' blob (p - 1 + 1)"
    using png p1 by simp
  then have png': "last_occ ''PNG'' ?r 1"
    using p1 pq by (intro last_occ_window) simp_all
  have "last_occ IEND_MARKER blob (p - 1 + (q + 1 - p))"
    using iend p1 pq by simp
  then have iend': "last_occ IEND_MARKER ?r (q + 1 - p)"
    using p1 pq by (intro last_occ_window) (simp_all add: IEND_MARKER_def)
  have "extract_png_from_layer ?r = Inr (drop (1 - 1) (take (q + 1 - p + 4) ?r))"
    using png' _ iend' by (rule extract_range) simp
  also have "drop (1 - 1) (take (q + 1 - p + 4) ?r) = ?r"
    using len pq by simp
  finally show ?thesis
    using first inside by simp
qed

theorem extract_well_formed_witness:
  "extract_png_from_layer ''xxPNGx.PNGabcIENDzzzzzz'' = Inr ''.PNGabcIEND'' \<and>
   extract_png_from_layer ''.PNGabcIEND'' = Inr ''.PNGabcIEND''"
proof -
  have "last_occ ''PNG'' ''xxPNGx.PNGabcIENDzzzzzz'' 7"
    by (simp add: rfind_last_occ [symmetric] rfind_def occurs_at_def)
  moreover have "last_occ IEND_MARKER ''xxPNGx.PNGabcIENDzzzzzz'' 13"
    by (simp add: rfind_last_occ [symmetric] rfind_def occurs_at_def IEND_MARKER_def)
  ultimately show ?thesis
    using extract_well_formed [of "''xxPNGx.PNGabcIENDzzzzzz''" 7 13] by simp
qed

text \<open>
  Claim C5. A blob whose last end marker lies before its last start marker is claimed to
  make the extraction fail, so that the row is skipped with a warning. The code has no
  such check: on the blob \<^verbatim>\<open>.IEND..PNG.\<close> (last \<^verbatim>\<open>IEND\<close> at offset 1, last \<^verbatim>\<open>PNG\<close> at
  offset 7) the extraction returns the empty byte string, and the row loop writes it as
  \<^verbatim>\<open>stamp_00.png\<close> and prints no warning.
\<close>

theorem extract_end_before_start:
  "rfind ''.IEND..PNG.'' IEND_MARKER = 1 \<and> rfind ''.IEND..PNG.'' ''PNG'' = 7 \<and>
   extract_png_from_layer ''.IEND..PNG.'' = Inr [] \<and>
   extract_pngs_from_sut [(1, ''.IEND..PNG.''), (2, ''.PNG..IEND'')] =
     Inr \<lparr>paths = [(0, []), (1, ''.PNG..IEND'')], warnings = []\<rparr>"
  by (simp add: extract_pngs_from_sut_def extract_png_from_layer_def rfind_def occurs_at_def
      IEND_MARKER_def slice_def)

section \<open>Properties of the spacing curve\<close>

lemma fle_Fin [simp]: "fle (Fin r) (Fin s) = (r \<le> s)"
  by (auto simp: fle_def)

lemma fle_refl: "x \<noteq> NaN \<Longrightarrow> fle x x"
  by (simp add: fle_def)

lemma fle_NaN [simp]: "\<not> fle NaN x" "\<not> fle x NaN"
  by (cases x; simp add: fle_def)+

lemma fle_inf [simp]:
  "fle NegInf (Fin r)" "fle (Fin r) PosInf" "fle NegInf PosInf" "fle PosInf PosInf"
  "fle NegInf NegInf" "\<not> fle (Fin r) NegInf" "\<not> fle PosInf (Fin r)" "\<not> fle PosInf NegInf"
  by (simp_all add: fle_def)

text \<open>Clamping between two finite bounds gives a finite float between them.\<close>

lemma clamp_finite:
  assumes "lo \<le> hi"
  shows "\<exists>c. fmax (Fin lo) (fmin (Fin hi) x) = Fin c \<and> lo \<le> c \<and> c \<le> hi"
  using assms by (cases x) (auto simp: fmax_def fmin_def)

lemma clamp_mono:
  assumes "fle x y" "lo \<le> hi"
  shows "fle (fmax (Fin lo) (fmin (Fin hi) x)) (fmax (Fin lo) (fmin (Fin hi) y))"
  using assms by (cases x; cases y) (auto simp: fmax_def fmin_def)

lemma fdiv_mono:
  assumes "fle x y" "0 < r"
  shows "fle (fdiv x (Fin r)) (fdiv y (Fin r))"
  using assms by (cases x; cases y) (auto simp: divide_right_mono)

lemma fmul_mono:
  assumes "fle x y" "0 < f"
  shows "fle (fmul x (Fin f)) (fmul y (Fin f))"
  using assms by (cases x; cases y) (auto simp: mult_right_mono)

lemma py_le_or_default:
  "py_le x1 x2 \<Longrightarrow> fle (or_default x1 (Fin 0)) (or_default x2 (Fin 0))"
  by (cases x1; cases x2) (auto simp: fle_def)

text \<open>
  The size the function computes with is never zero: a zero size has been replaced by 1.
\<close>

lemma size_px_nonzero: "ps_size_px v \<noteq> Fin 0"
proof (cases "v ''BrushSize''")
  case None
  then show ?thesis by (simp add: ps_size_px_def get_default_def)
next
  case (Some x)
  then show ?thesis by (cases x) (simp_all add: ps_size_px_def get_default_def)
qed

text \<open>A size below zero gives 0.01, whatever the interval.\<close>

lemma spacing_negative_size:
  assumes "negative (get v ''BrushSize'')"
  shows "csp_to_plotSpacing v = Fin 0.01"
proof (cases "v ''BrushSize''")
  case None
  with assms show ?thesis by (simp add: get_def)
next
  case (Some x)
  with assms have "fle (ps_size_px v) (Fin 0)"
    by (cases x) (auto simp: get_def get_default_def ps_size_px_def fle_def)
  then show ?thesis by (simp add: csp_to_plotSpacing_def)
qed

text \<open>
  Claim C4. The claim says that a brush size of 0 gives exactly 0.01 without forming the
  ratio, and the guard \<^verbatim>\<open>if size_px <= 0: return 0.01\<close> is there for it. But the line
  before reads the size as \<^verbatim>\<open>variant.get("BrushSize", 1) or 1\<close>, and 0 is false in
  Python: a size of 0 (or 0.0) has become 1 when the guard is reached, the guard never sees
  a zero (lemma \<open>size_px_nonzero\<close>) and the ratio is formed. With interval 10 the result
  is 1.0, not 0.01. Only the sizes below zero get 0.01 (lemma \<open>spacing_negative_size\<close>).
\<close>

theorem spacing_size_zero:
  "csp_to_plotSpacing [''BrushSize'' \<mapsto> PInt 0, ''BrushInterval'' \<mapsto> PInt 10] = Fin 1
   \<and> csp_to_plotSpacing [''BrushSize'' \<mapsto> PInt 0, ''BrushInterval'' \<mapsto> PInt 10] \<noteq> Fin 0.01
   \<and> csp_to_plotSpacing [''BrushSize'' \<mapsto> PFloat (Fin 0), ''BrushInterval'' \<mapsto> PInt 10] = Fin 1"
  by (simp add: csp_to_plotSpacing_def ps_size_px_def ps_interval_px_def get_default_def
      fmax_def fmin_def)

text \<open>
  Claim C9, as stated, at the brush size \<^verbatim>\<open>inf\<close> (a value a REAL column can hold): the
  interval \<^verbatim>\<open>-inf\<close> gives the ratio \<^verbatim>\<open>-inf / inf\<close>, which is not-a-number, and
  \<^verbatim>\<open>min(1.0, nan)\<close> is 1.0; the larger interval 5 gives the ratio 0 and the spacing 0.01.
  The spacing decreases from 1.0 to 0.01 while the interval increases.
\<close>

theorem spacing_infinite_size_counterexample:
  "py_le (PFloat NegInf) (PInt 5)
   \<and> csp_to_plotSpacing [''BrushSize'' \<mapsto> PFloat PosInf, ''BrushInterval'' \<mapsto> PFloat NegInf]
       = Fin 1.0
   \<and> csp_to_plotSpacing [''BrushSize'' \<mapsto> PFloat PosInf, ''BrushInterval'' \<mapsto> PInt 5]
       = Fin 0.01
   \<and> \<not> fle (Fin 1.0) (Fin 0.01)"
  by (simp add: csp_to_plotSpacing_def ps_size_px_def ps_interval_px_def get_default_def
      fmax_def fmin_def)

text \<open>
  Claim C9, amended. The spacing lies in [0.01, 1.0] for every variant row; and for a fixed
  row whose brush size is not \<^verbatim>\<open>inf\<close> (so a fixed brush size, in whichever size bucket),
  replacing the interval \<open>x1\<close> by an interval \<open>x2\<close> that is at least as large does not
  decrease the spacing.
\<close>

theorem spacing_monotone_bounded:
  "fle (Fin 0.01) (csp_to_plotSpacing v) \<and> fle (csp_to_plotSpacing v) (Fin 1.0) \<and>
   (py_le x1 x2 \<and> get v ''BrushSize'' \<noteq> PFloat PosInf \<longrightarrow>
      fle (csp_to_plotSpacing (v(''BrushInterval'' \<mapsto> x1)))
          (csp_to_plotSpacing (v(''BrushInterval'' \<mapsto> x2))))"
proof -
  have range: "\<exists>c. csp_to_plotSpacing w = Fin c \<and> 0.01 \<le> c \<and> c \<le> 1.0" for w
  proof (cases "fle (ps_size_px w) (Fin 0)")
    case True
    then have "csp_to_plotSpacing w = Fin 0.01"
      by (simp add: csp_to_plotSpacing_def)
    then show ?thesis by (intro exI [of _ "0.01"]) simp
  next
    case False
    have "(0.01::real) \<le> 1.0" by simp
    from clamp_finite [OF this] False show ?thesis
      unfolding csp_to_plotSpacing_def Let_def by presburger
  qed
  have bounds: "fle (Fin 0.01) (csp_to_plotSpacing w) \<and> fle (csp_to_plotSpacing w) (Fin 1.0)"
    for w
    using range [of w] by auto
  have size: "ps_size_px (v(''BrushInterval'' \<mapsto> x)) = ps_size_px v" for x
    by (simp add: ps_size_px_def get_default_def)
  have interval: "ps_interval_px (v(''BrushInterval'' \<mapsto> x)) = or_default x (Fin 0)" for x
    by (simp add: ps_interval_px_def get_default_def)
  have mono: "fle (csp_to_plotSpacing (v(''BrushInterval'' \<mapsto> x1)))
          (csp_to_plotSpacing (v(''BrushInterval'' \<mapsto> x2)))"
    if le: "py_le x1 x2" and fin: "get v ''BrushSize'' \<noteq> PFloat PosInf"
  proof -
    have i: "fle (or_default x1 (Fin 0)) (or_default x2 (Fin 0))"
      using le by (rule py_le_or_default)
    have notinf: "ps_size_px v \<noteq> PosInf"
    proof (cases "v ''BrushSize''")
      case None
      then show ?thesis by (simp add: ps_size_px_def get_default_def)
    next
      case (Some x)
      with fin show ?thesis
        by (cases x) (auto simp: ps_size_px_def get_default_def get_def)
    qed
    show ?thesis
    proof (cases "ps_size_px v")
      case (Fin r)
      show ?thesis
      proof (cases "r \<le> 0")
        case True
        then show ?thesis
          by (simp add: csp_to_plotSpacing_def size Fin)
      next
        case False
        then have pos: "0 < r" by simp
        define f :: real where
          "f = (if r < 50 then 0.15 else if r < 100 then 0.3 else 0.6)"
        have fpos: "0 < f" by (simp add: f_def)
        have eq: "csp_to_plotSpacing (v(''BrushInterval'' \<mapsto> x))
                  = fmax (Fin 0.01) (fmin (Fin 1.0) (fmul (fdiv (or_default x (Fin 0)) (Fin r)) (Fin f)))"
          for x
          unfolding csp_to_plotSpacing_def Let_def size interval f_def Fin
          using False by simp
        have "fle (fmul (fdiv (or_default x1 (Fin 0)) (Fin r)) (Fin f))
                  (fmul (fdiv (or_default x2 (Fin 0)) (Fin r)) (Fin f))"
          using i pos fpos by (intro fmul_mono fdiv_mono)
        then show ?thesis
          unfolding eq by (rule clamp_mono) simp
      qed
    next
      case PosInf
      with notinf show ?thesis by simp
    next
      case NegInf
      then show ?thesis
        by (simp add: csp_to_plotSpacing_def size)
    next
      case NaN
      have "csp_to_plotSpacing (v(''BrushInterval'' \<mapsto> x)) = Fin 1.0" for x
        by (simp add: csp_to_plotSpacing_def size NaN fmax_def fmin_def)
      then show ?thesis by simp
    qed
  qed
  show ?thesis using bounds mono by blast
qed

theorem spacing_monotone_bounded_witness:
  "fle (csp_to_plotSpacing [''BrushSize'' \<mapsto> PInt 40, ''BrushInterval'' \<mapsto> PInt 4])
       (csp_to_plotSpacing [''BrushSize'' \<mapsto> PInt 40, ''BrushInterval'' \<mapsto> PFloat PosInf])"
  using spacing_monotone_bounded [of "[''BrushSize'' \<mapsto> PInt 40]" "PInt 4" "PFloat PosInf"]
  by (simp add: get_def)

section \<open>Properties of the rendering-mode classification and of the wet-mix curve\<close>

lemma truthy_get: "truthy (get_default v k (PInt 0)) = truthy (get v k)"
  by (cases "v k") (simp_all add: get_default_def get_def)

lemma or_default_field: "or_default x d = (if eq0 x then d else field_value x d)"
  by (cases x) simp_all

lemma read_or_default:
  assumes "or_default d d' = d'"
  shows "or_default (get_default v k d) d' =
           (if eq0 (get v k) then d' else field_value (get v k) d')"
proof (cases "v k")
  case None
  then show ?thesis by (simp add: get_default_def get_def assms)
next
  case (Some x)
  then show ?thesis by (simp add: get_default_def get_def or_default_field)
qed

lemma read_zero:
  assumes "or_default d (Fin 0) = Fin 0"
  shows "or_default (get_default v k d) (Fin 0) = field_value (get v k) (Fin 0)"
proof -
  have "(if eq0 x then Fin 0 else field_value x (Fin 0)) = field_value x (Fin 0)" for x
    by (cases x) auto
  then show ?thesis by (simp add: read_or_default [OF assms])
qed

lemma min_cap:
  fixes c x :: real
  shows "0 \<le> c \<Longrightarrow> 0 \<le> x \<Longrightarrow> 0 \<le> min c x \<and> min c x \<le> c"
  by simp

text \<open>
  On the values for which the scale makes no difference, the thresholds give the same
  answers on the value of the row and on its normalisation.
\<close>

lemma scale_free_mix_thresholds:
  assumes "scale_free_mix x"
  shows "flt (Fin 0.05) (normalized_mix x) = flt (Fin 0.05) (field_value x (Fin 0))"
    and "fle (Fin 0.75) (normalized_mix x) = fle (Fin 0.75) (field_value x (Fin 0))"
  using assms
  by (cases "field_value x (Fin 0)"; auto simp: scale_free_mix_def normalized_mix_def)+

lemma scale_free_flow_threshold:
  assumes "scale_free_flow x"
  shows "flt (Fin 0.8) (normalized_flow x)
       = flt (Fin 0.8) (if eq0 x then Fin 1.0 else field_value x (Fin 1.0))"
proof (cases "x = PNone \<or> eq0 x")
  case True
  then show ?thesis by (auto simp: normalized_flow_def)
next
  case False
  then have fv: "field_value x (Fin 1.0) = field_value x (Fin 0)"
    by (cases x) simp_all
  from False assms have "fle (field_value x (Fin 0)) (Fin 0.8) \<or> flt (Fin 80) (field_value x (Fin 0))"
    by (simp add: scale_free_flow_def)
  then have "flt (Fin 0.8) (fdiv (field_value x (Fin 0)) (Fin 100))
       = flt (Fin 0.8) (field_value x (Fin 0))"
    by (cases "field_value x (Fin 0)") auto
  with False fv show ?thesis by (simp add: normalized_flow_def)
qed

text \<open>
  Claim C8, as stated, at flow 0 with the gate open by the water-color flag and no mix:
  by the decision table a flow of 0 is not above 0.8, so the mode is "uniform"; the code
  reads \<^verbatim>\<open>float(variant.get("BrushFlow", 1.0) or 1.0)\<close>, which turns the flow 0 into 1.0,
  and answers "heavy".
\<close>

theorem rendering_flags_zero_flow_counterexample:
  "map_csp_rendering_flags [''BrushUseWaterColor'' \<mapsto> PInt 1, ''BrushMixColor'' \<mapsto> PInt 0,
       ''BrushMixAlpha'' \<mapsto> PInt 0, ''BrushFlow'' \<mapsto> PInt 0]
     = \<lparr>renderingMaxTransfer = True, renderingModulatedTransfer = False,
        renderingRecursiveMixing = True\<rparr>
   \<and> claimed_rendering_flags True (fdiv (Fin 0) (Fin 100)) (fdiv (Fin 0) (Fin 100))
        (fdiv (Fin 0) (Fin 100))
     = \<lparr>renderingMaxTransfer = False, renderingModulatedTransfer = True,
        renderingRecursiveMixing = True\<rparr>"
  by (simp add: map_csp_rendering_flags_def claimed_rendering_flags_def rf_use_watercolor_def
      rf_mix_color_def rf_mix_alpha_def rf_brush_flow_def get_default_def)

text \<open>
  Claim C8, amended. The classification is a function of (useWaterColor, mixColor,
  mixAlpha, flow) on the 0-1 normalized scale, where an absent, null or zero flow counts as
  full strength (1.0): it is the stated decision table (gate open when water-color is set
  or mix-color or mix-alpha exceeds 0.05; then mix \<open>\<ge> 0.75\<close> intense, else flow \<open>> 0.8\<close>
  heavy, else uniform; gate closed: max transfer on, modulated off, recursive off). This is
  stated for the rows in which the scale makes no difference, that is, whose mix fields are
  at most 0.05 or at least 75 and whose flow is at most 0.8 or above 80 (or absent, null
  or zero); nothing is said of the other rows.
\<close>

theorem rendering_flags_classification:
  assumes "scale_free_mix (get v ''BrushMixColor'')"
    and "scale_free_mix (get v ''BrushMixAlpha'')"
    and "scale_free_flow (get v ''BrushFlow'')"
  shows "map_csp_rendering_flags v =
     claimed_rendering_flags (truthy (get v ''BrushUseWaterColor''))
       (normalized_mix (get v ''BrushMixColor''))
       (normalized_mix (get v ''BrushMixAlpha''))
       (normalized_flow (get v ''BrushFlow''))"
proof -
  have wc: "rf_use_watercolor v = truthy (get v ''BrushUseWaterColor'')"
    by (simp add: rf_use_watercolor_def truthy_get)
  have mc: "rf_mix_color v = field_value (get v ''BrushMixColor'') (Fin 0)"
    by (simp add: rf_mix_color_def read_zero)
  have ma: "rf_mix_alpha v = field_value (get v ''BrushMixAlpha'') (Fin 0)"
    by (simp add: rf_mix_alpha_def read_zero)
  have fl: "rf_brush_flow v =
      (if eq0 (get v ''BrushFlow'') then Fin 1.0 else field_value (get v ''BrushFlow'') (Fin 1.0))"
    unfolding rf_brush_flow_def by (subst read_or_default) simp_all
  show ?thesis
    unfolding map_csp_rendering_flags_def claimed_rendering_flags_def wc mc ma fl Let_def
      scale_free_mix_thresholds [OF assms(1)] scale_free_mix_thresholds [OF assms(2)]
      scale_free_flow_threshold [OF assms(3)]
    by simp
qed

theorem rendering_flags_classification_witness:
  "map_csp_rendering_flags [''BrushFlow'' \<mapsto> PInt 900, ''BrushMixColor'' \<mapsto> PInt 0,
       ''BrushMixAlpha'' \<mapsto> PInt 0, ''BrushUseWaterColor'' \<mapsto> PInt 0]
     = \<lparr>renderingMaxTransfer = True, renderingModulatedTransfer = False,
        renderingRecursiveMixing = False\<rparr>
   \<and> map_csp_rendering_flags [''BrushFlow'' \<mapsto> PInt 0, ''BrushMixColor'' \<mapsto> PInt 0,
       ''BrushUseWaterColor'' \<mapsto> PInt 1]
     = \<lparr>renderingMaxTransfer = True, renderingModulatedTransfer = False,
        renderingRecursiveMixing = True\<rparr>"
  using rendering_flags_classification [of "[''BrushFlow'' \<mapsto> PInt 900, ''BrushMixColor'' \<mapsto> PInt 0,
       ''BrushMixAlpha'' \<mapsto> PInt 0, ''BrushUseWaterColor'' \<mapsto> PInt 0]"]
    rendering_flags_classification [of "[''BrushFlow'' \<mapsto> PInt 0, ''BrushMixColor'' \<mapsto> PInt 0,
       ''BrushUseWaterColor'' \<mapsto> PInt 1]"]
  by (simp add: get_def scale_free_mix_def scale_free_flow_def normalized_mix_def
      normalized_flow_def claimed_rendering_flags_def)

text \<open>
  A row outside that range: the function compares the values of the row with the
  thresholds as they are, without dividing them by 100 as the wet-mix mapper does. A
  mix-color of 1 on the 0-100 scale and a flow of 50 give the intense flags, where the
  decision table on the normalised values 0.01 and 0.5 keeps the gate closed.
\<close>

lemma rendering_flags_scale_example:
  "map_csp_rendering_flags [''BrushMixColor'' \<mapsto> PInt 1, ''BrushFlow'' \<mapsto> PInt 50]
     = \<lparr>renderingMaxTransfer = True, renderingModulatedTransfer = True,
        renderingRecursiveMixing = True\<rparr>
   \<and> claimed_rendering_flags False (normalized_mix (PInt 1)) (normalized_mix PNone)
        (normalized_flow (PInt 50))
     = \<lparr>renderingMaxTransfer = True, renderingModulatedTransfer = False,
        renderingRecursiveMixing = False\<rparr>"
  by (simp add: map_csp_rendering_flags_def claimed_rendering_flags_def rf_use_watercolor_def
      rf_mix_color_def rf_mix_alpha_def rf_brush_flow_def get_default_def normalized_mix_def
      normalized_flow_def)

text \<open>
  Clamping the hundredth of a float to [0, 1] gives the finite float that the
  specification's normalisation names.
\<close>

lemma clamp_unit:
  "fmax (Fin 0.0) (fmin (Fin 1.0) (fdiv x (Fin 100.0))) = Fin (claimed_norm x)"
  by (cases x) (auto simp: fmax_def fmin_def max_def min_def)

lemma claimed_norm_range: "0 \<le> claimed_norm x \<and> claimed_norm x \<le> 1"
  by (cases x) simp_all

text \<open>
  Claim C7, as stated, at a raw flow of 0 (water-color set, mix-color 100, mix-alpha 0):
  dividing the raw flow by 100 gives a normalised flow of 0 and a dilution of 0.7; the code
  reads \<^verbatim>\<open>float(variant.get("BrushFlow", 100) or 100)\<close>, so its normalised flow is 1 and
  its dilution 0.35.
\<close>

theorem wet_mix_zero_flow_counterexample:
  "wetMixDilution (map_csp_to_wet_mix [''BrushUseWaterColor'' \<mapsto> PInt 1,
       ''BrushMixColor'' \<mapsto> PInt 100, ''BrushMixAlpha'' \<mapsto> PInt 0, ''BrushFlow'' \<mapsto> PInt 0])
     = 0.35
   \<and> wetMixDilution (claimed_wet_mix True (claimed_norm (Fin 100)) (claimed_norm (Fin 0))
        (claimed_norm (Fin 0)))
     = 0.7"
  by (simp add: map_csp_to_wet_mix_def claimed_wet_mix_def wm_use_wc_def
      wm_nc_def wm_na_def wm_nf_def wm_mix_col_def wm_mix_alpha_def wm_flow_def get_default_def
      fmax_def fmin_def)

lemma claimed_dilution_range:
  assumes "0 \<le> nc" "0 \<le> na" "nf \<le> 1"
  shows "0 \<le> wetMixDilution (claimed_wet_mix wc nc na nf) \<and>
         wetMixDilution (claimed_wet_mix wc nc na nf) \<le> 0.7"
proof -
  have "0 \<le> nc powr 0.75 * 0.7 * (0.5 + 0.5 * (1 - nf))"
    using assms by (intro mult_nonneg_nonneg) auto
  moreover have "0 \<le> 0.2 * na * 0.7"
    using assms by simp
  ultimately have "0 \<le> nc powr 0.75 * 0.7 * (0.5 + 0.5 * (1 - nf)) + 0.2 * na * 0.7"
    by linarith
  then have "0 \<le> min 0.7 (nc powr 0.75 * 0.7 * (0.5 + 0.5 * (1 - nf)) + 0.2 * na * 0.7) \<and>
      min 0.7 (nc powr 0.75 * 0.7 * (0.5 + 0.5 * (1 - nf)) + 0.2 * na * 0.7) \<le> 0.7"
    by (intro min_cap) simp_all
  moreover have "wetMixDilution (claimed_wet_mix wc nc na nf) = 0 \<or>
      wetMixDilution (claimed_wet_mix wc nc na nf) =
        min 0.7 (nc powr 0.75 * 0.7 * (0.5 + 0.5 * (1 - nf)) + 0.2 * na * 0.7)"
    by (cases "\<not> wc \<and> nc < 0.5") (simp_all add: claimed_wet_mix_def Let_def)
  ultimately show ?thesis by auto
qed

text \<open>
  Claim C7, amended. For every variant row, dilution, charge, attack and pull are given by
  the stated formulas (dilution 0 when the water-color flag is false and the normalised
  mix-color is below 0.5), where mix-color and mix-alpha are normalised from the field of
  the row (0 when absent or null) and the flow from the field of the row except that an
  absent, null or zero flow counts as 100. The dilution lies in [0, 0.7] and the charge
  in [0.2, 1.0].
\<close>

theorem wet_mix_formula:
  "map_csp_to_wet_mix v =
     claimed_wet_mix (truthy (get v ''BrushUseWaterColor''))
       (claimed_norm (field_value (get v ''BrushMixColor'') (Fin 0)))
       (claimed_norm (field_value (get v ''BrushMixAlpha'') (Fin 0)))
       (claimed_norm (if eq0 (get v ''BrushFlow'') then Fin 100
                      else field_value (get v ''BrushFlow'') (Fin 100)))
   \<and> 0 \<le> wetMixDilution (map_csp_to_wet_mix v)
   \<and> wetMixDilution (map_csp_to_wet_mix v) \<le> 0.7
   \<and> 0.2 \<le> wetMixCharge (map_csp_to_wet_mix v)
   \<and> wetMixCharge (map_csp_to_wet_mix v) \<le> 1.0"
proof -
  define wc where "wc = truthy (get v ''BrushUseWaterColor'')"
  define nc where "nc = claimed_norm (field_value (get v ''BrushMixColor'') (Fin 0))"
  define na where "na = claimed_norm (field_value (get v ''BrushMixAlpha'') (Fin 0))"
  define nf where "nf = claimed_norm (if eq0 (get v ''BrushFlow'') then Fin 100
                      else field_value (get v ''BrushFlow'') (Fin 100))"
  have a: "wm_use_wc v = wc"
    by (simp add: wm_use_wc_def truthy_get wc_def)
  have b: "wm_nc v = nc"
    unfolding wm_nc_def clamp_unit by (simp add: wm_mix_col_def read_zero nc_def)
  have c: "wm_na v = na"
    unfolding wm_na_def clamp_unit by (simp add: wm_mix_alpha_def read_zero na_def)
  have "wm_flow v = (if eq0 (get v ''BrushFlow'') then Fin 100
                      else field_value (get v ''BrushFlow'') (Fin 100))"
    unfolding wm_flow_def by (subst read_or_default) simp_all
  then have d: "wm_nf v = nf"
    unfolding wm_nf_def clamp_unit by (simp add: nf_def)
  have eq: "map_csp_to_wet_mix v = claimed_wet_mix wc nc na nf"
    unfolding map_csp_to_wet_mix_def claimed_wet_mix_def a b c d Let_def by simp
  have rng: "0 \<le> wetMixDilution (claimed_wet_mix wc nc na nf) \<and>
         wetMixDilution (claimed_wet_mix wc nc na nf) \<le> 0.7"
    using claimed_norm_range by (intro claimed_dilution_range) (simp_all add: nc_def na_def nf_def)
  have ch: "wetMixCharge (claimed_wet_mix wc nc na nf) =
              max 0.2 (1 - wetMixDilution (claimed_wet_mix wc nc na nf))"
    by (simp add: claimed_wet_mix_def Let_def)
  have "0.2 \<le> wetMixCharge (claimed_wet_mix wc nc na nf) \<and>
        wetMixCharge (claimed_wet_mix wc nc na nf) \<le> 1.0"
    unfolding ch using rng by (auto simp: max_def)
  with eq rng show ?thesis
    unfolding wc_def nc_def na_def nf_def by simp
qed

text \<open>
  Claim C10. When the field \<^verbatim>\<open>BrushFlow\<close> is absent or null, the rendering-mode
  classifier reads the flow 1.0 and the wet-mix mapper reads the flow 100 (a normalised
  flow of 1.0): each function answers as it does on the row with the flow set to its own
  default.
\<close>

theorem missing_flow_defaults:
  assumes "get v ''BrushFlow'' = PNone"
  shows "rf_brush_flow v = Fin 1.0 \<and> wm_flow v = Fin 100 \<and> wm_nf v = 1.0
    \<and> map_csp_rendering_flags v
        = map_csp_rendering_flags (v(''BrushFlow'' \<mapsto> PFloat (Fin 1.0)))
    \<and> map_csp_to_wet_mix v = map_csp_to_wet_mix (v(''BrushFlow'' \<mapsto> PInt 100))"
proof -
  have rf: "rf_brush_flow v = Fin 1.0"
    unfolding rf_brush_flow_def by (subst read_or_default) (simp_all add: assms)
  have wf: "wm_flow v = Fin 100"
    unfolding wm_flow_def by (subst read_or_default) (simp_all add: assms)
  have nf: "wm_nf v = 1.0"
    by (simp add: wm_nf_def wf fmax_def fmin_def)
  have r1: "rf_use_watercolor (v(''BrushFlow'' \<mapsto> x)) = rf_use_watercolor v" for x
    by (simp add: rf_use_watercolor_def get_default_def)
  have r2: "rf_mix_color (v(''BrushFlow'' \<mapsto> x)) = rf_mix_color v" for x
    by (simp add: rf_mix_color_def get_default_def)
  have r3: "rf_mix_alpha (v(''BrushFlow'' \<mapsto> x)) = rf_mix_alpha v" for x
    by (simp add: rf_mix_alpha_def get_default_def)
  have r4: "rf_brush_flow (v(''BrushFlow'' \<mapsto> PFloat (Fin 1.0))) = rf_brush_flow v"
    unfolding rf by (simp add: rf_brush_flow_def get_default_def)
  have r: "map_csp_rendering_flags v
        = map_csp_rendering_flags (v(''BrushFlow'' \<mapsto> PFloat (Fin 1.0)))"
    unfolding map_csp_rendering_flags_def r1 r2 r3 r4 by (rule refl)
  have w1: "wm_use_wc (v(''BrushFlow'' \<mapsto> x)) = wm_use_wc v" for x
    by (simp add: wm_use_wc_def get_default_def)
  have w2: "wm_nc (v(''BrushFlow'' \<mapsto> x)) = wm_nc v" for x
    by (simp add: wm_nc_def wm_mix_col_def get_default_def)
  have w3: "wm_na (v(''BrushFlow'' \<mapsto> x)) = wm_na v" for x
    by (simp add: wm_na_def wm_mix_alpha_def get_default_def)
  have w4: "wm_nf (v(''BrushFlow'' \<mapsto> PInt 100)) = wm_nf v"
    unfolding nf by (simp add: wm_nf_def wm_flow_def get_default_def fmax_def fmin_def)
  have w: "map_csp_to_wet_mix v = map_csp_to_wet_mix (v(''BrushFlow'' \<mapsto> PInt 100))"
    unfolding map_csp_to_wet_mix_def w1 w2 w3 w4 by (rule refl)
  show ?thesis using rf wf nf r w by simp
qed

theorem missing_flow_defaults_witness:
  "rf_brush_flow Map.empty = Fin 1.0 \<and> wm_flow Map.empty = Fin 100 \<and>
   rf_brush_flow [''BrushFlow'' \<mapsto> PNone] = Fin 1.0 \<and> wm_flow [''BrushFlow'' \<mapsto> PNone] = Fin 100"
  using missing_flow_defaults [of Map.empty] missing_flow_defaults [of "[''BrushFlow'' \<mapsto> PNone]"]
  by (simp add: get_def)

section \<open>Properties of the reference resolver\<close>

lemma follow_inactive: "\<not> active objs v \<Longrightarrow> follow n objs loc v \<noteq> None"
  by (cases v) (simp_all add: active_def)

lemma follow_imp_resolve:
  "follow n objs loc v = Some r \<Longrightarrow> resolve objs loc v = Some r"
proof (induction n arbitrary: loc v)
  case 0
  then show ?case
    by (cases v) (simp_all add: resolve.simps split: if_splits)
next
  case (Suc n)
  show ?case
  proof (cases v)
    case (UID k)
    show ?thesis
    proof (cases "k < length objs")
      case True
      with Suc.prems UID have "follow n objs (Some k) (objs ! k) = Some r" by simp
      then have "resolve objs (Some k) (objs ! k) = Some r" by (rule Suc.IH)
      with True UID show ?thesis by (subst resolve.simps) simp
    next
      case False
      with Suc.prems UID show ?thesis by (subst resolve.simps) simp
    qed
  qed (use Suc.prems in \<open>simp_all add: resolve.simps\<close>)
qed

lemma resolve_imp_follow:
  assumes "resolve objs loc v = Some r"
  shows "\<exists>n. follow n objs loc v = Some r"
proof (rule resolve.raw_induct
    [where P = "\<lambda>objs loc v r. \<exists>n. follow n objs loc v = Some r", OF _ assms])
  fix res objs loc v r
  assume IH: "\<And>objs loc v r. res objs loc v = Some r \<Longrightarrow> \<exists>n. follow n objs loc v = Some r"
    and step: "(case v of
                 UID k \<Rightarrow> if k < length objs then res objs (Some k) (objs ! k)
                          else Some (Inl IndexError)
               | _ \<Rightarrow> Some (Inr (loc, v))) = Some r"
  show "\<exists>n. follow n objs loc v = Some r"
  proof (cases v)
    case (UID k)
    show ?thesis
    proof (cases "k < length objs")
      case True
      with step UID have "res objs (Some k) (objs ! k) = Some r" by simp
      then obtain n where "follow n objs (Some k) (objs ! k) = Some r"
        using IH by blast
      then have "follow (Suc n) objs loc v = Some r"
        using True UID by simp
      then show ?thesis ..
    next
      case False
      with step UID have "follow 0 objs loc v = Some r" by simp
      then show ?thesis ..
    qed
  qed (use step in \<open>auto intro: exI [of _ 0]\<close>)
qed

lemma follow_mono:
  "follow n objs loc v = Some r \<Longrightarrow> n \<le> m \<Longrightarrow> follow m objs loc v = Some r"
proof (induction n arbitrary: m loc v)
  case 0
  then show ?case by (cases v) (simp_all split: if_splits)
next
  case (Suc n)
  then obtain m' where m: "m = Suc m'" and le: "n \<le> m'"
    by (cases m) auto
  show ?case
  proof (cases v)
    case (UID k)
    with Suc.prems(1) Suc.IH [OF _ le] show ?thesis
      by (auto simp: m split: if_splits)
  qed (use Suc.prems in simp_all)
qed

lemma follow_chain:
  "follow n objs loc v = Some r \<Longrightarrow>
   \<exists>m\<le>n. follow m objs loc v = Some r \<and> (\<forall>i<m. active objs ((nxt objs ^^ i) v))
           \<and> \<not> active objs ((nxt objs ^^ m) v)"
proof (induction n arbitrary: loc v)
  case 0
  then have "\<not> active objs v"
    by (cases v) (simp_all add: active_def split: if_splits)
  with 0 show ?case by simp
next
  case (Suc n)
  show ?case
  proof (cases "active objs v")
    case False
    then obtain r' where "follow 0 objs loc v = Some r'"
      using follow_inactive by blast
    moreover from this have "r' = r"
      using follow_mono [of 0 objs loc v r' "Suc n"] Suc.prems by simp
    ultimately show ?thesis using False by auto
  next
    case True
    then obtain k where v: "v = UID k" and k: "k < length objs"
      by (cases v) (simp_all add: active_def)
    have step: "nxt objs v = objs ! k"
      by (simp add: nxt_def v)
    from Suc.prems v k have "follow n objs (Some k) (objs ! k) = Some r" by simp
    from Suc.IH [OF this] obtain m where m: "m \<le> n"
      "follow m objs (Some k) (objs ! k) = Some r"
      "\<forall>i<m. active objs ((nxt objs ^^ i) (objs ! k))"
      "\<not> active objs ((nxt objs ^^ m) (objs ! k))"
      by blast
    have shift: "(nxt objs ^^ Suc i) v = (nxt objs ^^ i) (objs ! k)" for i
      by (simp add: funpow_swap1 step)
    have "\<forall>i<Suc m. active objs ((nxt objs ^^ i) v)"
    proof (intro allI impI)
      fix i assume "i < Suc m"
      then show "active objs ((nxt objs ^^ i) v)"
        using m(3) True shift by (cases i) auto
    qed
    moreover have "\<not> active objs ((nxt objs ^^ Suc m) v)"
      by (subst shift) (rule m(4))
    moreover have "follow (Suc m) objs loc v = Some r"
      using m(2) v k by simp
    ultimately show ?thesis using m(1) by (intro exI [of _ "Suc m"]) simp
  qed
qed

lemma chain_short:
  assumes act: "\<forall>i<m. active objs ((nxt objs ^^ i) v)"
    and stop: "\<not> active objs ((nxt objs ^^ m) v)"
  shows "m \<le> length objs"
proof (rule ccontr)
  assume "\<not> m \<le> length objs"
  then have big: "length objs < m" by simp
  define idx where "idx i = (case (nxt objs ^^ i) v of UID k \<Rightarrow> k | _ \<Rightarrow> 0)" for i
  have val: "(nxt objs ^^ i) v = UID (idx i) \<and> idx i < length objs" if "i < m" for i
  proof -
    from act that have "active objs ((nxt objs ^^ i) v)" by simp
    then show ?thesis
      by (cases "(nxt objs ^^ i) v") (simp_all add: active_def idx_def)
  qed
  have "idx ` {..length objs} \<subseteq> {..<length objs}"
    using val big by auto
  then have "card (idx ` {..length objs}) \<le> card {..<length objs}"
    by (intro card_mono) simp_all
  then have "card (idx ` {..length objs}) < card {..length objs}"
    by simp
  then have "\<not> inj_on idx {..length objs}"
    using pigeonhole by blast
  then obtain a b where ab: "a \<le> length objs" "b \<le> length objs" "a \<noteq> b" "idx a = idx b"
    by (auto simp: inj_on_def)
  have key: False if "i < j" "j \<le> length objs" "idx i = idx j" for i j
  proof -
    have eq: "(nxt objs ^^ i) v = (nxt objs ^^ j) v"
      using val [of i] val [of j] that big by simp
    have "(nxt objs ^^ (m - j + i)) v = (nxt objs ^^ (m - j)) ((nxt objs ^^ i) v)"
      by (simp add: funpow_add)
    also have "\<dots> = (nxt objs ^^ (m - j + j)) v"
      by (simp only: eq funpow_add o_apply)
    also have "\<dots> = (nxt objs ^^ m) v"
      using that big by simp
    finally have "(nxt objs ^^ (m - j + i)) v = (nxt objs ^^ m) v" .
    moreover have "m - j + i < m" using that big by simp
    ultimately show False using act stop by metis
  qed
  show False
  proof (cases "a < b")
    case True
    then show ?thesis using key [of a b] ab by simp
  next
    case False
    then have "b < a" using ab by simp
    then show ?thesis using key [of b a] ab by simp
  qed
qed

lemma follow_bound:
  assumes "follow n objs loc v = Some r"
  shows "follow (length objs) objs loc v = Some r"
proof -
  from follow_chain [OF assms] obtain m where
    m: "follow m objs loc v = Some r" "\<forall>i<m. active objs ((nxt objs ^^ i) v)"
       "\<not> active objs ((nxt objs ^^ m) v)"
    by blast
  from chain_short [OF m(2) m(3)] have "m \<le> length objs" .
  with m(1) show ?thesis by (rule follow_mono)
qed

text \<open>
  Claim C3, as stated, on a cyclic graph: in the slot table whose only slot refers to
  itself, resolving the reference to slot 0 does not return; no error is raised.
\<close>

theorem resolve_cycle_counterexample:
  "resolve [UID 0] None (UID 0) = None"
proof (rule ccontr)
  assume "resolve [UID 0] None (UID 0) \<noteq> None"
  then obtain r where "resolve [UID 0] None (UID 0) = Some r" by auto
  then obtain n where "follow n [UID 0] None (UID 0) = Some r"
    using resolve_imp_follow by blast
  then have "follow (length [UID 0]) [UID 0] None (UID 0) = Some r"
    by (rule follow_bound)
  then show False by simp
qed

text \<open>
  Claim C3, amended. The resolver has no bound of its own. It returns exactly when
  following at most slot-count many indirections reaches a value that is no reference into
  the slot table, and then with the result of that bounded resolution: the value reached,
  or \<^verbatim>\<open>IndexError\<close> when a reference reached is dangling (its index is outside the slot
  table). Otherwise the references are cyclic and the resolver does not terminate.
\<close>

theorem resolve_within_slot_count:
  "resolve objs loc val = follow (length objs) objs loc val"
proof (cases "follow (length objs) objs loc val")
  case None
  have "resolve objs loc val = None"
  proof (rule ccontr)
    assume "resolve objs loc val \<noteq> None"
    then obtain r where "resolve objs loc val = Some r" by auto
    then obtain n where "follow n objs loc val = Some r"
      using resolve_imp_follow by blast
    then have "follow (length objs) objs loc val = Some r" by (rule follow_bound)
    with None show False by simp
  qed
  with None show ?thesis by simp
next
  case (Some r)
  then show ?thesis by (simp add: follow_imp_resolve)
qed

lemma resolve_dangling_example:
  "resolve [UID 1, UID 7] None (UID 0) = Some (Inl IndexError)"
  by (rule follow_imp_resolve [of "Suc (Suc 0)"]) simp

section \<open>Properties of the patcher\<close>

lemma map_of_dset: "map_of (dset d k v) = (map_of d)(k \<mapsto> v)"
  by (induction d) (auto simp: fun_eq_iff)

lemma has_dset: "has (dset d k v) k' = (k' = k \<or> has d k')"
  by (simp add: has_def map_of_dset)

lemma set_if_absent: "\<not> has obj (KStr k) \<Longrightarrow> set_if k v obj = obj"
  by (simp add: set_if_def)

lemma set_if_num_absent: "\<not> has obj (KStr k) \<Longrightarrow> set_if_num k x obj = Inr obj"
  by (simp add: set_if_num_def)

lemma patch_c_to_f_spacing_only:
  assumes "has obj (KStr ''plotSpacing'')"
    and "\<not> has obj (KStr ''minSize'')" "\<not> has obj (KStr ''maxSize'')"
    and "\<not> has obj (KStr ''maxOpacity'')"
  shows "patch_c_to_f L obj = dset obj (KStr ''plotSpacing'') (OReal (spacing L))"
proof -
  have "set_if ''plotSpacing'' (OReal (spacing L)) obj
          = dset obj (KStr ''plotSpacing'') (OReal (spacing L))"
    using assms(1) by (simp add: set_if_def)
  moreover have "\<not> has (dset obj (KStr ''plotSpacing'') (OReal (spacing L))) (KStr k)"
    if "k \<noteq> ''plotSpacing''" "\<not> has obj (KStr k)" for k
    using that by (simp add: has_dset)
  ultimately show ?thesis
    unfolding patch_c_to_f_def Let_def using assms(2-4)
    by (simp add: set_if_absent)
qed

lemma patch_g_absent:
  "\<not> has obj (KStr ''shapeRotation'') \<Longrightarrow> patch_g L obj = Inr obj"
  by (simp add: patch_g_def set_if_num_absent)

lemma patch_h_to_k_absent:
  assumes "\<not> has obj (KStr ''shapeRandomise'')" "\<not> has obj (KStr ''shapeFlipXJitter'')"
    "\<not> has obj (KStr ''plotJitter'')"
  shows "patch_h_to_k L obj = obj"
  unfolding patch_h_to_k_def using assms by (simp add: set_if_absent)

lemma patch_l_absent:
  assumes "\<not> has obj (KStr ''taperPressure'')" "\<not> has obj (KStr ''pencilTaperStartLength'')"
    "\<not> has obj (KStr ''pencilTaperEndLength'')"
  shows "patch_l L obj = Inr obj"
  unfolding patch_l_def using assms by (simp add: set_if_absent set_if_num_absent)

lemma patch_m_to_o_absent:
  assumes "\<not> has obj (KStr ''renderingMaxTransfer'')"
    "\<not> has obj (KStr ''renderingModulatedTransfer'')"
    "\<not> has obj (KStr ''renderingRecursiveMixing'')"
    "\<not> has obj (KStr ''dynamicsMix'')" "\<not> has obj (KStr ''dynamicsLoad'')"
    "\<not> has obj (KStr ''dynamicsPressureMix'')" "\<not> has obj (KStr ''dynamicsWetAccumulation'')"
    "\<not> has obj (KStr ''shapeAzimuth'')" "\<not> has obj (KStr ''shapeRoll'')"
    "\<not> has obj (KStr ''shapeRollMode'')" "\<not> has obj (KStr ''shapeOrientation'')"
  shows "patch_m_to_o L obj = obj"
  unfolding patch_m_to_o_def using assms by (simp add: set_if_absent)

lemma patch_fields_spacing_only:
  assumes sp: "has obj (KStr ''plotSpacing'')"
    and others: "\<forall>k\<in>set other_fields. \<not> has obj (KStr k)"
  shows "patch_fields L obj = Inr (dset obj (KStr ''plotSpacing'') (OReal (spacing L)))"
proof -
  let ?obj = "dset obj (KStr ''plotSpacing'') (OReal (spacing L))"
  have c: "patch_c_to_f L obj = ?obj"
    using sp others by (intro patch_c_to_f_spacing_only) (simp_all add: other_fields_def)
  have "''plotSpacing'' \<notin> set other_fields"
    by (simp add: other_fields_def)
  then have abs: "\<forall>k\<in>set other_fields. \<not> has ?obj (KStr k)"
    using others by (auto simp: has_dset)
  have g: "patch_g L ?obj = Inr ?obj"
    using abs by (intro patch_g_absent) (simp add: other_fields_def)
  have h: "patch_h_to_k L ?obj = ?obj"
    using abs by (intro patch_h_to_k_absent) (simp_all add: other_fields_def)
  have l: "patch_l L ?obj = Inr ?obj"
    using abs by (intro patch_l_absent) (simp_all add: other_fields_def)
  have m: "patch_m_to_o L ?obj = ?obj"
    using abs by (intro patch_m_to_o_absent) (simp_all add: other_fields_def)
  show ?thesis
    by (simp add: patch_fields_def c g h l m)
qed

lemma has_set_if: "has (set_if k v obj) k' = has obj k'"
  by (auto simp: set_if_def has_dset)

text \<open>
  A record that has the field \<^verbatim>\<open>shapeRotation\<close> cannot be patched when the row has no
  \<^verbatim>\<open>BrushRotation\<close>: \<^verbatim>\<open>float(None)\<close> raises.
\<close>

lemma patch_fields_missing_rotation:
  assumes "has obj (KStr ''shapeRotation'')" "BrushRotation L = PNone"
  shows "patch_fields L obj = Inl TypeError"
proof -
  have "has (patch_c_to_f L obj) (KStr ''shapeRotation'')"
    using assms(1) by (simp add: patch_c_to_f_def Let_def has_set_if)
  then have "patch_g L (patch_c_to_f L obj) = Inl TypeError"
    using assms(2) by (simp add: patch_g_def set_if_num_def)
  then show ?thesis by (simp add: patch_fields_def)
qed

lemma number_error: "number x = Inl e \<Longrightarrow> e = TypeError"
  by (cases x) simp_all

lemma prepare_missing_revision:
  assumes "get variant ''BrushRevision'' = PNone"
  shows "prepare t name variant = Inl TypeError"
proof (cases "number (get_default variant ''BrushFlow'' (PInt 1000))")
  case (Inl e)
  then show ?thesis by (simp add: prepare_def number_error)
next
  case flow: (Inr flow_val)
  show ?thesis
  proof (cases "number (get_default variant ''BrushRotationRandomScale'' (PInt 0))")
    case (Inl e)
    then show ?thesis by (simp add: prepare_def flow number_error)
  next
    case (Inr scale)
    then show ?thesis by (simp add: prepare_def flow assms)
  qed
qed

text \<open>
  Claim C2. The claim says that a missing source field never raises. The code reads
  \<^verbatim>\<open>BrushRevision\<close> with \<^verbatim>\<open>variant.get("BrushRevision")\<close>, without a default, and
  divides the result by 100: when the field is absent or null this is \<^verbatim>\<open>None / 100\<close>,
  a \<^verbatim>\<open>TypeError\<close>, raised before the loop, whatever the template. No parameter set is
  produced.
\<close>

theorem finalise_missing_revision:
  assumes "get variant ''BrushRevision'' = PNone"
  shows "prepare t name variant = Inl TypeError \<and>
         finalise_seed_brush objs name t variant = Some (Inl TypeError)"
  using prepare_missing_revision [OF assms] by (simp add: finalise_seed_brush_def)

theorem finalise_missing_revision_witness:
  "finalise_seed_brush []  ''Brush 1'' 0
     [''BrushSize'' \<mapsto> PInt 40, ''BrushInterval'' \<mapsto> PInt 4, ''BrushFlow'' \<mapsto> PInt 900,
      ''BrushMixColor'' \<mapsto> PInt 0, ''BrushMixAlpha'' \<mapsto> PInt 0,
      ''BrushUseWaterColor'' \<mapsto> PInt 0] = Some (Inl TypeError)"
  using finalise_missing_revision [of
      "[''BrushSize'' \<mapsto> PInt 40, ''BrushInterval'' \<mapsto> PInt 4, ''BrushFlow'' \<mapsto> PInt 900,
      ''BrushMixColor'' \<mapsto> PInt 0, ''BrushMixAlpha'' \<mapsto> PInt 0,
      ''BrushUseWaterColor'' \<mapsto> PInt 0]" 0 "''Brush 1''" "[]"]
  by (simp add: get_def)

text \<open>
  Claim C1. The claim says that a per-occurrence field is rewritten on every record slot
  that has it, and that the scan stops early only once every such slot has been visited.
  The code leaves the loop as soon as both claim-once fields are set. On the template
  below, slot 1 has the creation date, the name and \<^verbatim>\<open>plotSpacing\<close>, and slot 4 has
  \<^verbatim>\<open>plotSpacing\<close> again: the scan stops after slot 1, so the spacing of slot 1 becomes
  0.015 and the spacing of slot 4 keeps the value 1 of the template.
\<close>

theorem scan_stops_early:
  "finalise_seed_brush
     [OStr ''$null'',
      ODict [(KStr ''creationDate'', UID 2), (KStr ''name'', UID 3),
             (KStr ''plotSpacing'', OReal (Fin 1))],
      ODict [(KStr ''NS.time'', OReal (Fin 0))],
      OStr ''Seed'',
      ODict [(KStr ''plotSpacing'', OReal (Fin 1))]]
     ''New'' 1000
     [''BrushSize'' \<mapsto> PInt 40, ''BrushInterval'' \<mapsto> PInt 4, ''BrushRevision'' \<mapsto> PInt 0]
   = Some (Inr
     [OStr ''$null'',
      ODict [(KStr ''creationDate'', UID 2), (KStr ''name'', UID 3),
             (KStr ''plotSpacing'', OReal (Fin 0.015))],
      ODict [(KStr ''NS.time'', OReal (Fin 1000))],
      OStr ''New'',
      ODict [(KStr ''plotSpacing'', OReal (Fin 1))]])"
proof -
  let ?v = "[''BrushSize'' \<mapsto> PInt 40, ''BrushInterval'' \<mapsto> PInt 4, ''BrushRevision'' \<mapsto> PInt 0]"
  let ?root = "[(KStr ''creationDate'', UID 2), (KStr ''name'', UID 3),
             (KStr ''plotSpacing'', OReal (Fin 1))]"
  let ?root' = "[(KStr ''creationDate'', UID 2), (KStr ''name'', UID 3),
             (KStr ''plotSpacing'', OReal (Fin (3 / 200)))]"
  let ?last = "ODict [(KStr ''plotSpacing'', OReal (Fin 1))]"
  let ?objs = "[OStr ''$null'', ODict ?root, ODict [(KStr ''NS.time'', OReal (Fin 0))],
      OStr ''Seed'', ?last]"
  let ?objs1 = "[OStr ''$null'', ODict ?root, ODict [(KStr ''NS.time'', OReal (Fin 1000))],
      OStr ''Seed'', ?last]"
  let ?objs2 = "[OStr ''$null'', ODict ?root, ODict [(KStr ''NS.time'', OReal (Fin 1000))],
      OStr ''New'', ?last]"
  let ?objs3 = "[OStr ''$null'', ODict ?root', ODict [(KStr ''NS.time'', OReal (Fin 1000))],
      OStr ''New'', ?last]"
  let ?st = "\<lparr>s_objs = ?objs, s_stamped = False, s_renamed = False\<rparr>"
  let ?st1 = "\<lparr>s_objs = ?objs1, s_stamped = True, s_renamed = False\<rparr>"
  let ?st2 = "\<lparr>s_objs = ?objs2, s_stamped = True, s_renamed = True\<rparr>"
  let ?st3 = "\<lparr>s_objs = ?objs3, s_stamped = True, s_renamed = True\<rparr>"
  obtain L where L: "prepare 1000 ''New'' ?v = Inr L"
    and fields: "spacing L = Fin (3 / 200)" "now L = 1000" "new_name L = ''New''"
      "\<not> angle_sensitive L" "\<not> truthy (BrushUseIn L)" "\<not> truthy (BrushUseOut L)"
    by (simp add: prepare_def get_def get_default_def csp_to_plotSpacing_def ps_size_px_def
        ps_interval_px_def fmax_def fmin_def)
  have res: "resolve ?objs None (UID 2) = Some (Inr (Some 2, ODict [(KStr ''NS.time'', OReal (Fin 0))]))"
    by (rule follow_imp_resolve [of "Suc 0"]) simp
  have a: "stamp L (Suc 0) ?root ?st = Some (Inr (?root, ?st1))"
    unfolding stamp_def by (simp add: has_def dget_def res fields Let_def)
  have b: "rename L (Suc 0) ?root ?st1 = Inr (True, ?st2)"
    unfolding rename_def by (simp add: has_def dget_def int_index_def fields)
  have "has ?root (KStr ''plotSpacing'')"
    by (simp add: has_def)
  moreover have "\<forall>k\<in>set other_fields. \<not> has ?root (KStr k)"
    by (simp add: other_fields_def has_def)
  ultimately have c: "patch_fields L ?root = Inr ?root'"
    by (simp add: patch_fields_spacing_only fields)
  have slot: "patch_slot L (Suc 0) ?root ?st = Some (Inr ?st3)"
    unfolding patch_slot_def by (simp add: a b c)
  have s1: "scan_from L (Suc (Suc (Suc (Suc 0)))) (Suc 0) ?st = Some (Inr ?st3)"
    by (simp add: slot)
  have s0: "scan_from L (Suc (Suc (Suc (Suc (Suc 0))))) 0 ?st = Some (Inr ?st3)"
    using s1 by simp
  have len: "length ?objs = Suc (Suc (Suc (Suc (Suc 0))))"
    by simp
  show ?thesis
    by (simp add: finalise_seed_brush_def L s0 del: scan_from.simps)
qed

end
